theory Spec2Isabelle
  imports Main "HOL-Library.Sublist"
begin

section \<open>Thrown values, promises and try/catch\<close>

text \<open>
  A JavaScript \<open>throw\<close> carries any value. Every catch block of the repository reads it
  with \<open>error instanceof Error ? error.message : String(error)\<close>, so a thrown value is
  either an \<open>Error\<close> object with its message, or some other value with its string form.
\<close>

datatype thrown = Error string | NonError string

fun errorMessage :: "thrown \<Rightarrow> string" where
  "errorMessage (Error m) = m"
| "errorMessage (NonError s) = s"

text \<open>
  An awaited computation over a state \<open>'s\<close> (the external hosts and the log of the calls
  issued so far): it settles to a thrown value (\<open>Inl\<close>) or to a result (\<open>Inr\<close>).
\<close>

type_synonym ('s, 'a) prog = "'s \<Rightarrow> (thrown + 'a) \<times> 's"

definition returns :: "'a \<Rightarrow> ('s, 'a) prog" where
  "returns x = (\<lambda>s. (Inr x, s))"

definition throws :: "thrown \<Rightarrow> ('s, 'a) prog" where
  "throws e = (\<lambda>s. (Inl e, s))"

definition await :: "('s, 'a) prog \<Rightarrow> ('a \<Rightarrow> ('s, 'b) prog) \<Rightarrow> ('s, 'b) prog" where
  "await m f = (\<lambda>s. case m s of (Inl e, s') \<Rightarrow> (Inl e, s') | (Inr x, s') \<Rightarrow> f x s')"

definition try_catch :: "('s, 'a) prog \<Rightarrow> (thrown \<Rightarrow> ('s, 'a) prog) \<Rightarrow> ('s, 'a) prog" where
  "try_catch body handler =
     (\<lambda>s. case body s of (Inl e, s') \<Rightarrow> handler e s' | (Inr x, s') \<Rightarrow> (Inr x, s'))"

text \<open>
  \<open>Promise.all(xs.map(async x => ...))\<close> where every callback issues its host call before
  its first suspension. All the callbacks are started, in list order, so all the calls
  are issued whatever their outcomes. The promises then settle in an order that is not
  the program's to choose: \<open>clock\<close> reads, from the state a callback leaves, the time at
  which its promise settles.
\<close>

fun settle_all :: "('s \<Rightarrow> nat) \<Rightarrow> ('s, 'a) prog list \<Rightarrow> 's \<Rightarrow> (nat \<times> (thrown + 'a)) list \<times> 's" where
  "settle_all clock [] s = ([], s)"
| "settle_all clock (p # ps) s =
     (case p s of (r, s1) \<Rightarrow>
        (case settle_all clock ps s1 of (rs, s2) \<Rightarrow> ((clock s1, r) # rs, s2)))"

text \<open>
  The rejection that comes first in time, the earlier in the list among those of one
  time.
\<close>

fun first_rejection :: "(nat \<times> (thrown + 'a)) list \<Rightarrow> (nat \<times> thrown) option" where
  "first_rejection [] = None"
| "first_rejection ((t, Inr x) # rs) = first_rejection rs"
| "first_rejection ((t, Inl e) # rs) =
     (case first_rejection rs of
        None \<Rightarrow> Some (t, e)
      | Some (t', e') \<Rightarrow> if t' < t then Some (t', e') else Some (t, e))"

fun fulfilled :: "(nat \<times> (thrown + 'a)) list \<Rightarrow> 'a list" where
  "fulfilled [] = []"
| "fulfilled ((t, Inr x) # rs) = x # fulfilled rs"
| "fulfilled ((t, Inl e) # rs) = fulfilled rs"

text \<open>
  The whole settles to the list of the results when every promise is fulfilled, and is
  rejected with the reason of the first rejection in time otherwise.
\<close>

definition promise_all :: "('s \<Rightarrow> nat) \<Rightarrow> ('s, 'a) prog list \<Rightarrow> ('s, 'a list) prog" where
  "promise_all clock ps =
     (\<lambda>s. case settle_all clock ps s of (rs, s') \<Rightarrow>
             (case first_rejection rs of
                Some (t, e) \<Rightarrow> (Inl e, s')
              | None \<Rightarrow> (Inr (fulfilled rs), s')))"

section \<open>Strings\<close>

text \<open>
  Strings are lists of 8-bit characters (Latin-1 text). \<open>toLowerCase\<close> maps \<open>A-Z\<close> and the
  Latin-1 capitals; \<open>str_includes\<close> is \<open>String.prototype.includes\<close>.
\<close>

definition lower_char :: "char \<Rightarrow> char" where
  "lower_char c =
     (let n = of_char c :: nat in
      if (65 \<le> n \<and> n \<le> 90) \<or> (192 \<le> n \<and> n \<le> 222 \<and> n \<noteq> 215) then char_of (n + 32) else c)"

definition toLowerCase :: "string \<Rightarrow> string" where
  "toLowerCase s = map lower_char s"

fun str_includes :: "string \<Rightarrow> string \<Rightarrow> bool" where
  "str_includes [] t = (t = [])"
| "str_includes (x # xs) t = (prefix t (x # xs) \<or> str_includes xs t)"

text \<open>\<open>String.prototype.substring(0, n)\<close> and \<open>.length\<close> are \<open>take n\<close> and \<open>length\<close>.\<close>

fun digit_char :: "nat \<Rightarrow> char" where
  "digit_char n = char_of (48 + n)"

fun decimal_aux :: "nat \<Rightarrow> nat \<Rightarrow> string \<Rightarrow> string" where
  "decimal_aux 0 n acc = acc"
| "decimal_aux (Suc fuel) n acc =
     (if n < 10 then digit_char n # acc
      else decimal_aux fuel (n div 10) (digit_char (n mod 10) # acc))"

text \<open>The decimal form of a natural number, as a template literal prints it.\<close>

definition decimal :: "nat \<Rightarrow> string" where
  "decimal n = decimal_aux (Suc n) n []"

section \<open>Regular expressions\<close>

text \<open>
  The two regular expressions of the workflow use character classes \<open>\d\<close> and \<open>\s\<close>,
  literal characters under the flag \<open>i\<close>, the greedy quantifiers \<open>*\<close>, \<open>+\<close> and \<open>?\<close> on
  single characters, concatenation, alternation and capture groups. The matcher is the
  backtracking matcher of the language standard: a quantifier takes as much as it can and
  gives back one character at a time when the rest of the pattern fails.
\<close>

datatype cls = Digit | Space | Ch char

definition is_digit :: "char \<Rightarrow> bool" where
  "is_digit c = (let n = of_char c :: nat in 48 \<le> n \<and> n \<le> 57)"

definition is_space :: "char \<Rightarrow> bool" where
  "is_space c = (of_char c \<in> {9, 10, 11, 12, 13, 32, 160 :: nat})"

text \<open>
  Under the flag \<open>i\<close> two characters match when their canonical forms agree, the
  canonical form being the upper-case character. The patterns hold ASCII characters
  only, and a character outside ASCII never has the canonical form of an ASCII one: so
  the canonical form is taken as the code, with \<open>a-z\<close> moved onto \<open>A-Z\<close>.
\<close>

definition canonicalize :: "char \<Rightarrow> nat" where
  "canonicalize c = (let n = of_char c :: nat in if 97 \<le> n \<and> n \<le> 122 then n - 32 else n)"

fun cls_matches :: "cls \<Rightarrow> char \<Rightarrow> bool" where
  "cls_matches Digit c = is_digit c"
| "cls_matches Space c = is_space c"
| "cls_matches (Ch p) c = (canonicalize c = canonicalize p)"

datatype regex =
    Eps
  | Atom cls
  | Star cls
  | Plus cls
  | Opt cls
  | Seq regex regex
  | Alt regex regex
  | Group regex

fun bt :: "regex \<Rightarrow> string \<Rightarrow> string list \<Rightarrow> (string \<Rightarrow> string list \<Rightarrow> 'r option) \<Rightarrow> 'r option" where
  "bt Eps s cs k = k s cs"
| "bt (Atom c) [] cs k = None"
| "bt (Atom c) (x # xs) cs k = (if cls_matches c x then k xs cs else None)"
| "bt (Star c) [] cs k = k [] cs"
| "bt (Star c) (x # xs) cs k =
     (if cls_matches c x
      then (case bt (Star c) xs cs k of Some r \<Rightarrow> Some r | None \<Rightarrow> k (x # xs) cs)
      else k (x # xs) cs)"
| "bt (Plus c) [] cs k = None"
| "bt (Plus c) (x # xs) cs k = (if cls_matches c x then bt (Star c) xs cs k else None)"
| "bt (Opt c) [] cs k = k [] cs"
| "bt (Opt c) (x # xs) cs k =
     (if cls_matches c x
      then (case k xs cs of Some r \<Rightarrow> Some r | None \<Rightarrow> k (x # xs) cs)
      else k (x # xs) cs)"
| "bt (Seq a b) s cs k = bt a s cs (\<lambda>s' cs'. bt b s' cs' k)"
| "bt (Alt a b) s cs k = (case bt a s cs k of Some r \<Rightarrow> Some r | None \<Rightarrow> bt b s cs k)"
| "bt (Group a) s cs k = bt a s cs (\<lambda>s' cs'. k s' (cs' @ [take (length s - length s') s]))"

text \<open>A literal word: its characters in sequence.\<close>

fun lit :: "string \<Rightarrow> regex" where
  "lit [] = Eps"
| "lit (c # cs) = Seq (Atom (Ch c)) (lit cs)"

text \<open>A match that starts at the head of the string: its length and its capture groups.\<close>

definition match_here :: "regex \<Rightarrow> string \<Rightarrow> (nat \<times> string list) option" where
  "match_here r s = bt r s [] (\<lambda>s' cs. Some (length s - length s', cs))"

text \<open>
  \<open>str.match(re)\<close> without the flag \<open>g\<close>: the leftmost match, as the matched text and the
  capture groups, or \<open>None\<close> for \<open>null\<close>.
\<close>

fun exec :: "regex \<Rightarrow> string \<Rightarrow> (string \<times> string list) option" where
  "exec r [] = (case match_here r [] of Some (n, cs) \<Rightarrow> Some ([], cs) | None \<Rightarrow> None)"
| "exec r (x # xs) =
     (case match_here r (x # xs) of
        Some (n, cs) \<Rightarrow> Some (take n (x # xs), cs)
      | None \<Rightarrow> exec r xs)"

text \<open>
  \<open>str.match(re)\<close> with the flag \<open>g\<close>: every match, left to right, each search starting
  where the previous match ended (one character further after an empty match). The empty
  list stands for \<open>null\<close>, which the caller treats alike.
\<close>

function match_all :: "regex \<Rightarrow> string \<Rightarrow> string list" where
  "match_all r [] = (case match_here r [] of Some (n, cs) \<Rightarrow> [[]] | None \<Rightarrow> [])"
| "match_all r (x # xs) =
     (case match_here r (x # xs) of
        Some (n, cs) \<Rightarrow> take n (x # xs) # match_all r (drop (n - 1) xs)
      | None \<Rightarrow> match_all r xs)"
  by pat_completeness auto
termination
  by (relation "measure (\<lambda>(r, s). length s)") auto

section \<open>The task-discovery step of the workflow\<close>

text \<open>
  A JavaScript number as far as the step needs it: a natural number, or \<open>NaN\<close>.
  (Values are exact here; the language rounds integers above \<open>2^53\<close>.)
\<close>

datatype number = Num nat | NaN

fun show_number :: "number \<Rightarrow> string" where
  "show_number (Num n) = decimal n"
| "show_number NaN = ''NaN''"

text \<open>
  \<open>parseInt\<close> on a string without leading white space, sign or radix prefix, which is
  what the capture group \<open>(\d+)\<close> hands to it: the value of the leading run of digits,
  \<open>NaN\<close> when there is none.
\<close>

definition digits_value :: "string \<Rightarrow> nat" where
  "digits_value ds = foldl (\<lambda>n c. 10 * n + (of_char c - 48)) 0 ds"

definition parseInt :: "string \<Rightarrow> number" where
  "parseInt s = (let ds = takeWhile is_digit s in if ds = [] then NaN else Num (digits_value ds))"

text \<open>\<open>/(\d+)\s*tasks?\s*(processed|completed|handled)/i\<close>\<close>

definition tasksProcessedRegex :: regex where
  "tasksProcessedRegex =
     Seq (Group (Plus Digit))
       (Seq (Star Space)
         (Seq (lit ''task'')
           (Seq (Opt (Ch CHR ''s''))
             (Seq (Star Space)
               (Group (Alt (lit ''processed'') (Alt (lit ''completed'') (lit ''handled''))))))))"

text \<open>\<open>/pull request[s]?\s*[#]?(\d+)/gi\<close>\<close>

definition pullRequestRegex :: regex where
  "pullRequestRegex =
     Seq (lit ''pull request'')
       (Seq (Opt (Ch CHR ''s''))
         (Seq (Star Space)
           (Seq (Opt (Ch CHR ''#''))
             (Group (Plus Digit)))))"

record step_result =
  tasksProcessed :: number
  completedTasks :: "string list"
  errors :: "string list"
  summary :: string

text \<open>The metrics the step reads out of the agent's final text.\<close>

definition parse_response :: "string \<Rightarrow> step_result" where
  "parse_response agentResponse =
     (let tasksProcessedMatch = exec tasksProcessedRegex agentResponse;
          tasksProcessed = (case tasksProcessedMatch of
                              Some (m, groups) \<Rightarrow> parseInt (groups ! 0)
                            | None \<Rightarrow> Num 0);
          completedTasks = match_all pullRequestRegex agentResponse;
          errors = (if str_includes (toLowerCase agentResponse) ''error''
                       \<or> str_includes (toLowerCase agentResponse) ''failed''
                    then [''Some tasks encountered errors - check agent logs for details'']
                    else [])
      in \<lparr> tasksProcessed = tasksProcessed,
           completedTasks = completedTasks,
           errors = errors,
           summary = ''CTO Automation completed: '' @ show_number tasksProcessed
             @ '' tasks processed, '' @ decimal (length completedTasks)
             @ '' pull requests created. Agent response: '' @ take 500 agentResponse
             @ (if length agentResponse > 500 then ''...'' else []) \<rparr>)"

text \<open>
  The body of the step's \<open>try\<close>. \<open>agent\<close> is what \<open>mastra?.getAgent('ctoAgent')\<close> gives:
  nothing, or an agent whose \<open>generate\<close> call (on the fixed instruction, with a budget of
  20 steps) settles to the final text or throws.
\<close>

definition taskDiscoveryStep_try :: "('s, string) prog option \<Rightarrow> ('s, step_result) prog" where
  "taskDiscoveryStep_try agent =
     (case agent of
        None \<Rightarrow> throws (Error ''CTO Agent not found - ensure it is registered in the Mastra instance'')
      | Some generate \<Rightarrow> await generate (\<lambda>agentResponse. returns (parse_response agentResponse)))"

definition taskDiscoveryStep_catch :: "thrown \<Rightarrow> ('s, step_result) prog" where
  "taskDiscoveryStep_catch error =
     returns \<lparr> tasksProcessed = Num 0,
               completedTasks = [],
               errors = [''Workflow execution failed: '' @ errorMessage error],
               summary = ''CTO Automation failed: '' @ errorMessage error \<rparr>"

definition taskDiscoveryStep :: "('s, string) prog option \<Rightarrow> ('s, step_result) prog" where
  "taskDiscoveryStep agent = try_catch (taskDiscoveryStep_try agent) taskDiscoveryStep_catch"

section \<open>The source-control host and the tools over it\<close>

text \<open>
  The characters a template literal of the tools spells out: the double quote and the
  line feed.
\<close>

definition dq :: string where
  "dq = [CHR 0x22]"

definition nl :: string where
  "nl = [CHR 0x0A]"

datatype encoding = Utf8 | Base64

record commit_file =
  file_path :: string
  file_content :: string
  file_encoding :: encoding

record tree_entry =
  entry_path :: string
  entry_sha :: string
  entry_mode :: string
  entry_type :: string

record pull_request =
  pr_number :: nat
  pr_html_url :: string

text \<open>
  An entry of a contents response. \<open>item_size\<close> is \<open>None\<close> when the host sends no size;
  \<open>item_content\<close> is the base64 text a single-file response carries.
\<close>

record content_item =
  item_name :: string
  item_path :: string
  item_type :: string
  item_size :: "int option"
  item_sha :: string
  item_content :: "string option"

text \<open>\<open>repos.getContent\<close> answers with an array (a directory) or a single object.\<close>

datatype content_data = Listing "content_item list" | Single content_item

record branch_info =
  branch_name :: string
  branch_commit_sha :: string
  branch_protected :: bool

text \<open>
  The calls a tool issues to the host, each with its arguments and with how it settled.
  The log of a run is the list of these events in the order of issue.
\<close>

datatype gh_event =
    GetRef string string string "thrown + string"
  | CreateRef string string string string "thrown + string"
  | GetCommit string string string "thrown + string"
  | CreateBlob string string string encoding "thrown + string"
  | CreateTree string string string "tree_entry list" "thrown + string"
  | CreateCommit string string string string "string list" "thrown + string"
  | UpdateRef string string string string "thrown + unit"
  | PullsCreate string string string string string string bool "thrown + pull_request"
  | RequestReviewers string string nat "string list" "thrown + unit"
  | GetContent string string string "string option" "thrown + content_data"
  | ListBranches string string "thrown + branch_info list"

text \<open>
  The host, as the client library presents it: every method takes its arguments and the
  host's state \<open>'h\<close>, and settles to a failure or to the fields of the response the tools
  read (\<open>data.object.sha\<close>, \<open>data.tree.sha\<close>, \<open>data.sha\<close>, \<open>data.number\<close> and
  \<open>data.html_url\<close>, \<open>data\<close>). \<open>getUncachableGitHubClient\<close> obtains the access token and
  builds the client; it fails when \<open>getAccessToken\<close> throws. The calls are requests in
  flight: \<open>settles_at\<close> reads from the host's state, right after a call was issued, the
  time at which the promise of that call settles.
\<close>

record 'h github =
  getUncachableGitHubClient :: "'h \<Rightarrow> (thrown + unit) \<times> 'h"
  git_getRef :: "string \<Rightarrow> string \<Rightarrow> string \<Rightarrow> 'h \<Rightarrow> (thrown + string) \<times> 'h"
  git_createRef :: "string \<Rightarrow> string \<Rightarrow> string \<Rightarrow> string \<Rightarrow> 'h \<Rightarrow> (thrown + string) \<times> 'h"
  git_getCommit :: "string \<Rightarrow> string \<Rightarrow> string \<Rightarrow> 'h \<Rightarrow> (thrown + string) \<times> 'h"
  git_createBlob :: "string \<Rightarrow> string \<Rightarrow> string \<Rightarrow> encoding \<Rightarrow> 'h \<Rightarrow> (thrown + string) \<times> 'h"
  git_createTree :: "string \<Rightarrow> string \<Rightarrow> string \<Rightarrow> tree_entry list \<Rightarrow> 'h \<Rightarrow> (thrown + string) \<times> 'h"
  git_createCommit :: "string \<Rightarrow> string \<Rightarrow> string \<Rightarrow> string \<Rightarrow> string list \<Rightarrow> 'h \<Rightarrow> (thrown + string) \<times> 'h"
  git_updateRef :: "string \<Rightarrow> string \<Rightarrow> string \<Rightarrow> string \<Rightarrow> 'h \<Rightarrow> (thrown + unit) \<times> 'h"
  pulls_create :: "string \<Rightarrow> string \<Rightarrow> string \<Rightarrow> string \<Rightarrow> string \<Rightarrow> string \<Rightarrow> bool \<Rightarrow> 'h \<Rightarrow> (thrown + pull_request) \<times> 'h"
  pulls_requestReviewers :: "string \<Rightarrow> string \<Rightarrow> nat \<Rightarrow> string list \<Rightarrow> 'h \<Rightarrow> (thrown + unit) \<times> 'h"
  repos_getContent :: "string \<Rightarrow> string \<Rightarrow> string \<Rightarrow> string option \<Rightarrow> 'h \<Rightarrow> (thrown + content_data) \<times> 'h"
  repos_listBranches :: "string \<Rightarrow> string \<Rightarrow> 'h \<Rightarrow> (thrown + branch_info list) \<times> 'h"
  settles_at :: "'h \<Rightarrow> nat"

text \<open>A run's state: the host's state and the log of the calls issued so far.\<close>

type_synonym ('h, 'a) gh_prog = "('h \<times> gh_event list, 'a) prog"

text \<open>Issuing a call: the host answers, and the call goes to the log with its outcome.\<close>

definition issue :: "('h \<Rightarrow> (thrown + 'a) \<times> 'h) \<Rightarrow> ((thrown + 'a) \<Rightarrow> 'e) \<Rightarrow> ('h \<times> 'e list, 'a) prog" where
  "issue f ev = (\<lambda>(h, log). case f h of (r, h') \<Rightarrow> (r, (h', log @ [ev r])))"

text \<open>A step on the host that is not one of the logged calls.\<close>

definition quietly :: "('h \<Rightarrow> (thrown + 'a) \<times> 'h) \<Rightarrow> ('h \<times> 'e list, 'a) prog" where
  "quietly f = (\<lambda>(h, log). case f h of (r, h') \<Rightarrow> (r, (h', log)))"

text \<open>The time at which the promise of the call just issued settles.\<close>

definition clock :: "'h github \<Rightarrow> 'h \<times> gh_event list \<Rightarrow> nat" where
  "clock github = (\<lambda>(h, log). settles_at github h)"

text \<open>The result every tool of the two hosts shares: \<open>{success, message}\<close>.\<close>

record tool_result =
  success :: bool
  message :: string

subsection \<open>createBranch\<close>

record create_branch_context =
  cb_owner :: string
  cb_repo :: string
  cb_branchName :: string
  cb_baseBranch :: string

record create_branch_result = tool_result +
  branchName :: string
  sha :: string

definition createBranch_try :: "'h github \<Rightarrow> create_branch_context \<Rightarrow> ('h, create_branch_result) gh_prog" where
  "createBranch_try github c =
     await (quietly (getUncachableGitHubClient github)) (\<lambda>_.
     await (issue (git_getRef github (cb_owner c) (cb_repo c) (''heads/'' @ cb_baseBranch c))
                  (GetRef (cb_owner c) (cb_repo c) (''heads/'' @ cb_baseBranch c))) (\<lambda>baseRef.
     await (issue (git_createRef github (cb_owner c) (cb_repo c) (''refs/heads/'' @ cb_branchName c) baseRef)
                  (CreateRef (cb_owner c) (cb_repo c) (''refs/heads/'' @ cb_branchName c) baseRef)) (\<lambda>newBranch.
     returns \<lparr> success = True,
               message = ''Branch '' @ dq @ cb_branchName c @ dq @ '' created successfully from ''
                         @ dq @ cb_baseBranch c @ dq,
               branchName = cb_branchName c,
               sha = newBranch \<rparr>)))"

definition createBranch_catch :: "create_branch_context \<Rightarrow> thrown \<Rightarrow> ('h, create_branch_result) gh_prog" where
  "createBranch_catch c error =
     returns \<lparr> success = False,
               message = ''Failed to create branch: '' @ errorMessage error,
               branchName = cb_branchName c,
               sha = [] \<rparr>"

definition createBranch :: "'h github \<Rightarrow> create_branch_context \<Rightarrow> ('h, create_branch_result) gh_prog" where
  "createBranch github c = try_catch (createBranch_try github c) (createBranch_catch c)"

subsection \<open>commitCode\<close>

record commit_context =
  cc_owner :: string
  cc_repo :: string
  cc_branch :: string
  cc_message :: string
  cc_files :: "commit_file list"

record commit_result = tool_result +
  commitSha :: "string option"

text \<open>The tree entry of a file whose blob has the given sha.\<close>

definition blob_entry :: "commit_file \<Rightarrow> string \<Rightarrow> tree_entry" where
  "blob_entry file blob =
     \<lparr> entry_path = file_path file, entry_sha = blob,
       entry_mode = ''100644'', entry_type = ''blob'' \<rparr>"

text \<open>The callback of \<open>files.map\<close>: one blob per file, and the tree entry that names it.\<close>

definition create_blob :: "'h github \<Rightarrow> commit_context \<Rightarrow> commit_file \<Rightarrow> ('h, tree_entry) gh_prog" where
  "create_blob github c file =
     await (issue (git_createBlob github (cc_owner c) (cc_repo c) (file_content file) (file_encoding file))
                  (CreateBlob (cc_owner c) (cc_repo c) (file_content file) (file_encoding file))) (\<lambda>blob.
     returns (blob_entry file blob))"

definition commitCode_try :: "'h github \<Rightarrow> commit_context \<Rightarrow> ('h, commit_result) gh_prog" where
  "commitCode_try github c =
     await (quietly (getUncachableGitHubClient github)) (\<lambda>_.
     await (issue (git_getRef github (cc_owner c) (cc_repo c) (''heads/'' @ cc_branch c))
                  (GetRef (cc_owner c) (cc_repo c) (''heads/'' @ cc_branch c))) (\<lambda>ref.
     await (issue (git_getCommit github (cc_owner c) (cc_repo c) ref)
                  (GetCommit (cc_owner c) (cc_repo c) ref)) (\<lambda>commit_tree.
     await (promise_all (clock github) (map (create_blob github c) (cc_files c))) (\<lambda>blobs.
     await (issue (git_createTree github (cc_owner c) (cc_repo c) commit_tree blobs)
                  (CreateTree (cc_owner c) (cc_repo c) commit_tree blobs)) (\<lambda>tree.
     await (issue (git_createCommit github (cc_owner c) (cc_repo c) (cc_message c) tree [ref])
                  (CreateCommit (cc_owner c) (cc_repo c) (cc_message c) tree [ref])) (\<lambda>newCommit.
     await (issue (git_updateRef github (cc_owner c) (cc_repo c) (''heads/'' @ cc_branch c) newCommit)
                  (UpdateRef (cc_owner c) (cc_repo c) (''heads/'' @ cc_branch c) newCommit)) (\<lambda>_.
     returns \<lparr> success = True,
               message = ''Successfully committed '' @ decimal (length (cc_files c))
                         @ '' files to branch '' @ dq @ cc_branch c @ dq,
               commitSha = Some newCommit \<rparr>)))))))"

definition commitCode_catch :: "thrown \<Rightarrow> ('h, commit_result) gh_prog" where
  "commitCode_catch error =
     returns \<lparr> success = False,
               message = ''Failed to commit code: '' @ errorMessage error,
               commitSha = None \<rparr>"

definition commitCode :: "'h github \<Rightarrow> commit_context \<Rightarrow> ('h, commit_result) gh_prog" where
  "commitCode github c = try_catch (commitCode_try github c) commitCode_catch"

subsection \<open>createPullRequest\<close>

record pull_request_context =
  pc_owner :: string
  pc_repo :: string
  pc_title :: string
  pc_head :: string
  pc_base :: string
  pc_body :: string
  pc_notionTaskUrl :: "string option"
  pc_reviewers :: "string list option"
  pc_draft :: bool

record pull_request_result = tool_result +
  pullRequestUrl :: "string option"
  pullRequestNumber :: "nat option"

definition reviewChecklist :: string where
  "reviewChecklist =
     nl @ nl @ ''## Review Checklist'' @ nl
     @ ''- [ ] Code follows ZenQuill coding standards'' @ nl
     @ ''- [ ] Tests have been added/updated'' @ nl
     @ ''- [ ] Documentation has been updated'' @ nl
     @ ''- [ ] No breaking changes introduced'' @ nl
     @ ''- [ ] Security considerations addressed''"

text \<open>The body sent to the host: the link to the task when it is given and not empty, then the checklist.\<close>

definition prBody :: "pull_request_context \<Rightarrow> string" where
  "prBody c =
     pc_body c
     @ (case pc_notionTaskUrl c of
          None \<Rightarrow> []
        | Some url \<Rightarrow> if url = [] then []
                      else nl @ nl @ ''## Related Task'' @ nl @ ''- Original Notion Task: '' @ url)
     @ reviewChecklist"

definition createPullRequest_try :: "'h github \<Rightarrow> pull_request_context \<Rightarrow> ('h, pull_request_result) gh_prog" where
  "createPullRequest_try github c =
     await (quietly (getUncachableGitHubClient github)) (\<lambda>_.
     await (issue (pulls_create github (pc_owner c) (pc_repo c) (pc_title c) (pc_head c) (pc_base c) (prBody c) (pc_draft c))
                  (PullsCreate (pc_owner c) (pc_repo c) (pc_title c) (pc_head c) (pc_base c) (prBody c) (pc_draft c))) (\<lambda>pullRequest.
     await (case pc_reviewers c of
              None \<Rightarrow> returns ()
            | Some reviewers \<Rightarrow>
                if length reviewers > 0
                then issue (pulls_requestReviewers github (pc_owner c) (pc_repo c) (pr_number pullRequest) reviewers)
                           (RequestReviewers (pc_owner c) (pc_repo c) (pr_number pullRequest) reviewers)
                else returns ()) (\<lambda>_.
     returns \<lparr> success = True,
               message = ''Pull request #'' @ decimal (pr_number pullRequest) @ '' created successfully'',
               pullRequestUrl = Some (pr_html_url pullRequest),
               pullRequestNumber = Some (pr_number pullRequest) \<rparr>)))"

definition createPullRequest_catch :: "thrown \<Rightarrow> ('h, pull_request_result) gh_prog" where
  "createPullRequest_catch error =
     returns \<lparr> success = False,
               message = ''Failed to create pull request: '' @ errorMessage error,
               pullRequestUrl = None,
               pullRequestNumber = None \<rparr>"

definition createPullRequest :: "'h github \<Rightarrow> pull_request_context \<Rightarrow> ('h, pull_request_result) gh_prog" where
  "createPullRequest github c = try_catch (createPullRequest_try github c) createPullRequest_catch"

subsection \<open>getRepositoryContent\<close>

record content_context =
  gc_owner :: string
  gc_repo :: string
  gc_path :: string
  gc_ref :: "string option"

record repository_item =
  name :: string
  path :: string
  type :: string
  size :: "int option"
  item_hash :: string
  content :: "string option"

record content_result = tool_result +
  items :: "repository_item list"

text \<open>\<open>...(ref ? { ref } : {})\<close>: the ref goes along when it is given and not empty.\<close>

definition ref_param :: "string option \<Rightarrow> string option" where
  "ref_param r = (case r of None \<Rightarrow> None | Some x \<Rightarrow> if x = [] then None else Some x)"

definition baseItem :: "content_item \<Rightarrow> repository_item" where
  "baseItem item =
     \<lparr> name = item_name item, path = item_path item, type = item_type item,
       size = item_size item, item_hash = item_sha item, content = None \<rparr>"

text \<open>\<open>item.type === 'file' && item.size && item.size < 100000\<close>\<close>

definition small_file :: "content_item \<Rightarrow> bool" where
  "small_file item =
     (item_type item = ''file''
      \<and> (case item_size item of None \<Rightarrow> False | Some n \<Rightarrow> n \<noteq> 0 \<and> n < 100000))"

text \<open>
  What the callback returns once the file's own response is there: the listed fields,
  with the decoded text when the response is a single object whose \<open>content\<close> is not
  empty. \<open>decode\<close> stands for \<open>Buffer.from(_, 'base64').toString('utf-8')\<close> of the
  runtime.
\<close>

definition with_content :: "(string \<Rightarrow> string) \<Rightarrow> content_item \<Rightarrow> content_data \<Rightarrow> repository_item" where
  "with_content decode item fileResponse =
     (case fileResponse of
        Single f \<Rightarrow>
          (case item_content f of
             Some text \<Rightarrow> if text \<noteq> [] then (baseItem item)\<lparr> content := Some (decode text) \<rparr>
                          else baseItem item
           | None \<Rightarrow> baseItem item)
      | Listing _ \<Rightarrow> baseItem item)"

text \<open>
  The callback of \<open>items.map\<close>. The inner \<open>try\<close> swallows a failed fetch: the item is
  then returned as it was listed.
\<close>

definition process_item :: "(string \<Rightarrow> string) \<Rightarrow> 'h github \<Rightarrow> content_context \<Rightarrow> content_item \<Rightarrow> ('h, repository_item) gh_prog" where
  "process_item decode github c item =
     (if small_file item
      then try_catch
             (await (issue (repos_getContent github (gc_owner c) (gc_repo c) (item_path item) (ref_param (gc_ref c)))
                           (GetContent (gc_owner c) (gc_repo c) (item_path item) (ref_param (gc_ref c)))) (\<lambda>fileResponse.
              returns (with_content decode item fileResponse)))
             (\<lambda>error. returns (baseItem item))
      else returns (baseItem item))"

text \<open>\<open>Array.isArray(response.data) ? response.data : [response.data]\<close>\<close>

definition listed :: "content_data \<Rightarrow> content_item list" where
  "listed response = (case response of Listing xs \<Rightarrow> xs | Single x \<Rightarrow> [x])"

definition getRepositoryContent_try :: "(string \<Rightarrow> string) \<Rightarrow> 'h github \<Rightarrow> content_context \<Rightarrow> ('h, content_result) gh_prog" where
  "getRepositoryContent_try decode github c =
     await (quietly (getUncachableGitHubClient github)) (\<lambda>_.
     await (issue (repos_getContent github (gc_owner c) (gc_repo c) (gc_path c) (ref_param (gc_ref c)))
                  (GetContent (gc_owner c) (gc_repo c) (gc_path c) (ref_param (gc_ref c)))) (\<lambda>response.
     await (promise_all (clock github) (map (process_item decode github c) (listed response))) (\<lambda>processedItems.
     returns \<lparr> success = True,
               message = ''Retrieved '' @ decimal (length processedItems) @ '' items from ''
                         @ (if gc_path c = [] then ''root'' else gc_path c),
               items = processedItems \<rparr>)))"

definition getRepositoryContent_catch :: "thrown \<Rightarrow> ('h, content_result) gh_prog" where
  "getRepositoryContent_catch error =
     returns \<lparr> success = False,
               message = ''Failed to get repository content: '' @ errorMessage error,
               items = [] \<rparr>"

definition getRepositoryContent :: "(string \<Rightarrow> string) \<Rightarrow> 'h github \<Rightarrow> content_context \<Rightarrow> ('h, content_result) gh_prog" where
  "getRepositoryContent decode github c =
     try_catch (getRepositoryContent_try decode github c) getRepositoryContent_catch"

subsection \<open>listRepositoryBranches\<close>

record branches_context =
  lb_owner :: string
  lb_repo :: string

record listed_branch =
  lb_name :: string
  lb_sha :: string
  lb_protected :: bool

record branches_result = tool_result +
  branches :: "listed_branch list"

definition listRepositoryBranches_try :: "'h github \<Rightarrow> branches_context \<Rightarrow> ('h, branches_result) gh_prog" where
  "listRepositoryBranches_try github c =
     await (quietly (getUncachableGitHubClient github)) (\<lambda>_.
     await (issue (repos_listBranches github (lb_owner c) (lb_repo c))
                  (ListBranches (lb_owner c) (lb_repo c))) (\<lambda>response.
     returns \<lparr> success = True,
               message = ''Found '' @ decimal (length response) @ '' branches'',
               branches = map (\<lambda>b. \<lparr> lb_name = branch_name b, lb_sha = branch_commit_sha b,
                                       lb_protected = branch_protected b \<rparr>) response \<rparr>))"

definition listRepositoryBranches_catch :: "thrown \<Rightarrow> ('h, branches_result) gh_prog" where
  "listRepositoryBranches_catch error =
     returns \<lparr> success = False,
               message = ''Failed to list branches: '' @ errorMessage error,
               branches = [] \<rparr>"

definition listRepositoryBranches :: "'h github \<Rightarrow> branches_context \<Rightarrow> ('h, branches_result) gh_prog" where
  "listRepositoryBranches github c =
     try_catch (listRepositoryBranches_try github c) listRepositoryBranches_catch"

text \<open>
  Vocabulary for the log of a commit: the blob-create calls of the files, in the order
  of the files, with the given outcomes.
\<close>

definition blob_calls :: "commit_context \<Rightarrow> (thrown + string) list \<Rightarrow> gh_event list" where
  "blob_calls c outs =
     map2 (\<lambda>file out. CreateBlob (cc_owner c) (cc_repo c) (file_content file) (file_encoding file) out)
       (cc_files c) outs"

text \<open>
  Vocabulary for the log of a listing. The fetch of one item has an outcome: none (no
  call was issued), a failure, or a response. \<open>fetch_events\<close> is what the outcome leaves
  in the log, \<open>returned_item\<close> the item the callback returns on it.
\<close>

definition fetch_events :: "content_context \<Rightarrow> content_item \<Rightarrow> (thrown + content_data) option \<Rightarrow> gh_event list" where
  "fetch_events c item outcome =
     (case outcome of
        None \<Rightarrow> []
      | Some out \<Rightarrow> [GetContent (gc_owner c) (gc_repo c) (item_path item) (ref_param (gc_ref c)) out])"

definition returned_item :: "(string \<Rightarrow> string) \<Rightarrow> content_item \<Rightarrow> (thrown + content_data) option \<Rightarrow> repository_item" where
  "returned_item decode item outcome =
     (case outcome of
        Some (Inr fileResponse) \<Rightarrow> with_content decode item fileResponse
      | Some (Inl error) \<Rightarrow> baseItem item
      | None \<Rightarrow> baseItem item)"

subsection \<open>Two concrete hosts\<close>

text \<open>
  A host without state that answers every call with a fixed value, and the same host
  rejecting tree creation.
\<close>

definition demo_github :: "unit github" where
  "demo_github =
     \<lparr> getUncachableGitHubClient = (\<lambda>h. (Inr (), h)),
       git_getRef = (\<lambda>owner repo ref h. (Inr ''c0ffee'', h)),
       git_createRef = (\<lambda>owner repo ref sha h. (Inr sha, h)),
       git_getCommit = (\<lambda>owner repo commit_sha h. (Inr ''7ree00'', h)),
       git_createBlob = (\<lambda>owner repo text enc h. (Inr (''b10b-'' @ text), h)),
       git_createTree = (\<lambda>owner repo base_tree entries h. (Inr ''7ree01'', h)),
       git_createCommit = (\<lambda>owner repo msg tree parents h. (Inr ''c0ffee01'', h)),
       git_updateRef = (\<lambda>owner repo ref sha h. (Inr (), h)),
       pulls_create = (\<lambda>owner repo title head base body draft h.
                         (Inr \<lparr> pr_number = 7, pr_html_url = ''https://host/pull/7'' \<rparr>, h)),
       pulls_requestReviewers = (\<lambda>owner repo number reviewers h. (Inr (), h)),
       repos_getContent = (\<lambda>owner repo p ref h. (Inr (Listing []), h)),
       repos_listBranches = (\<lambda>owner repo h. (Inr [], h)),
       settles_at = (\<lambda>h. 0) \<rparr>"

definition tree_rejecting_github :: "unit github" where
  "tree_rejecting_github =
     demo_github \<lparr> git_createTree := (\<lambda>owner repo base_tree entries h. (Inl (Error ''Validation Failed''), h)) \<rparr>"

definition demo_commit :: commit_context where
  "demo_commit =
     \<lparr> cc_owner = ''acme'', cc_repo = ''app'', cc_branch = ''feature'', cc_message = ''Add readme'',
       cc_files = [\<lparr> file_path = ''README.md'', file_content = ''hello'', file_encoding = Utf8 \<rparr>] \<rparr>"

text \<open>
  A host that counts the blobs it was asked for and rejects each of them, and whose
  answer to the first request arrives after its answer to the second; and a commit of
  two files.
\<close>

definition blob_rejecting_github :: "nat github" where
  "blob_rejecting_github =
     \<lparr> getUncachableGitHubClient = (\<lambda>h. (Inr (), h)),
       git_getRef = (\<lambda>owner repo ref h. (Inr ''c0ffee'', h)),
       git_createRef = (\<lambda>owner repo ref sha h. (Inr sha, h)),
       git_getCommit = (\<lambda>owner repo commit_sha h. (Inr ''7ree00'', h)),
       git_createBlob = (\<lambda>owner repo text enc h. (Inl (Error (''blob '' @ text @ '' rejected'')), Suc h)),
       git_createTree = (\<lambda>owner repo base_tree entries h. (Inr ''7ree01'', h)),
       git_createCommit = (\<lambda>owner repo msg tree parents h. (Inr ''c0ffee01'', h)),
       git_updateRef = (\<lambda>owner repo ref sha h. (Inr (), h)),
       pulls_create = (\<lambda>owner repo title head base body draft h.
                         (Inr \<lparr> pr_number = 7, pr_html_url = ''https://host/pull/7'' \<rparr>, h)),
       pulls_requestReviewers = (\<lambda>owner repo number reviewers h. (Inr (), h)),
       repos_getContent = (\<lambda>owner repo p ref h. (Inr (Listing []), h)),
       repos_listBranches = (\<lambda>owner repo h. (Inr [], h)),
       settles_at = (\<lambda>h. if h = 1 then 5 else 1) \<rparr>"

definition two_files_commit :: commit_context where
  "two_files_commit =
     \<lparr> cc_owner = ''acme'', cc_repo = ''app'', cc_branch = ''feature'', cc_message = ''Add two files'',
       cc_files = [\<lparr> file_path = ''a.txt'', file_content = ''A'', file_encoding = Utf8 \<rparr>,
                   \<lparr> file_path = ''b.txt'', file_content = ''B'', file_encoding = Utf8 \<rparr>] \<rparr>"

definition reviewers_rejecting_github :: "unit github" where
  "reviewers_rejecting_github =
     demo_github \<lparr> pulls_requestReviewers :=
       (\<lambda>owner repo number reviewers h. (Inl (Error ''Reviews may only be requested from collaborators''), h)) \<rparr>"

definition demo_pull :: pull_request_context where
  "demo_pull =
     \<lparr> pc_owner = ''acme'', pc_repo = ''app'', pc_title = ''Add readme'', pc_head = ''feature'',
       pc_base = ''main'', pc_body = ''Adds a readme.'', pc_notionTaskUrl = None,
       pc_reviewers = Some [''octocat''], pc_draft = False \<rparr>"

text \<open>A host whose root directory holds one empty file, and a listing of the root.\<close>

definition gitkeep :: content_item where
  "gitkeep =
     \<lparr> item_name = ''.gitkeep'', item_path = ''.gitkeep'', item_type = ''file'',
       item_size = Some 0, item_sha = ''e69de29'', item_content = None \<rparr>"

definition gitkeep_github :: "unit github" where
  "gitkeep_github =
     demo_github \<lparr> repos_getContent := (\<lambda>owner repo p ref h. (Inr (Listing [gitkeep]), h)) \<rparr>"

definition demo_listing :: content_context where
  "demo_listing = \<lparr> gc_owner = ''acme'', gc_repo = ''app'', gc_path = [], gc_ref = None \<rparr>"

text \<open>
  A host whose root directory holds a small file and a large one, and that fails every
  fetch of a single file.
\<close>

definition small_readme :: content_item where
  "small_readme =
     \<lparr> item_name = ''README.md'', item_path = ''README.md'', item_type = ''file'',
       item_size = Some 120, item_sha = ''0a1b2c'', item_content = None \<rparr>"

definition large_dump :: content_item where
  "large_dump =
     \<lparr> item_name = ''dump.sql'', item_path = ''dump.sql'', item_type = ''file'',
       item_size = Some 100000, item_sha = ''3d4e5f'', item_content = None \<rparr>"

definition fetch_failing_github :: "unit github" where
  "fetch_failing_github =
     demo_github \<lparr> repos_getContent :=
       (\<lambda>owner repo p ref h.
          if p = [] then (Inr (Listing [small_readme, large_dump]), h)
          else (Inl (Error ''Server Error''), h)) \<rparr>"

section \<open>The board host and the tools over it\<close>

text \<open>
  A property of a board page, as far as the tools look into it: the plain texts of its
  \<open>title\<close> array, the name of its \<open>select\<close> option, the plain texts of its
  \<open>rich_text\<close> array and the names of its \<open>people\<close>. A field the property does not
  have (or that is \<open>null\<close>) is \<open>None\<close>.
\<close>

record notion_property =
  prop_title :: "string list option"
  prop_select :: "string option"
  prop_rich_text :: "string list option"
  prop_people :: "string list option"

text \<open>
  A page of the board host. \<open>page_properties\<close> lists the properties by name (a name
  occurs once). \<open>page_parent_database\<close> is the database the page belongs to
  (\<open>parent.database_id\<close>), if any; no tool reads it.
\<close>

record notion_page =
  page_id :: string
  page_created_time :: string
  page_last_edited_time :: string
  page_url :: string
  page_parent_database :: "string option"
  page_properties :: "(string \<times> notion_property) list"

text \<open>A content block: its type, and the plain texts of the rich text under each kind.\<close>

record notion_block =
  block_type :: string
  block_paragraph :: "string list option"
  block_heading_1 :: "string list option"
  block_heading_2 :: "string list option"
  block_heading_3 :: "string list option"
  block_bulleted_list_item :: "string list option"
  block_numbered_list_item :: "string list option"

record search_params =
  filter_value :: string
  filter_property :: string
  page_size :: nat

datatype notion_event =
    Search search_params "thrown + notion_page list"
  | PagesUpdate string string "thrown + unit"
  | CommentsCreate string string "thrown + unit"
  | PagesRetrieve string "thrown + notion_page"
  | BlocksChildrenList string "thrown + notion_block list"

text \<open>
  The board host behind its client: \<open>search\<close> settles to \<open>response.results\<close>,
  \<open>pages.update\<close> sets the \<open>Status\<close> select of a page, \<open>comments.create\<close> adds one
  comment, \<open>pages.retrieve\<close> and \<open>blocks.children.list\<close> read a page and its blocks.
\<close>

record 'n notion =
  getUncachableNotionClient :: "'n \<Rightarrow> (thrown + unit) \<times> 'n"
  notion_search :: "search_params \<Rightarrow> 'n \<Rightarrow> (thrown + notion_page list) \<times> 'n"
  pages_update :: "string \<Rightarrow> string \<Rightarrow> 'n \<Rightarrow> (thrown + unit) \<times> 'n"
  comments_create :: "string \<Rightarrow> string \<Rightarrow> 'n \<Rightarrow> (thrown + unit) \<times> 'n"
  pages_retrieve :: "string \<Rightarrow> 'n \<Rightarrow> (thrown + notion_page) \<times> 'n"
  blocks_children_list :: "string \<Rightarrow> 'n \<Rightarrow> (thrown + notion_block list) \<times> 'n"

type_synonym ('n, 'a) notion_prog = "('n \<times> notion_event list, 'a) prog"

subsection \<open>Extracting a task from a page\<close>

text \<open>\<open>a || b\<close> on two values that are an object or \<open>undefined\<close>.\<close>

definition or_else :: "'a option \<Rightarrow> 'a option \<Rightarrow> 'a option" where
  "or_else a b = (case a of Some x \<Rightarrow> Some x | None \<Rightarrow> b)"

record task =
  task_id :: string
  title :: string
  status :: string
  description :: string
  assignee :: string
  priority :: string
  createdTime :: string
  lastEditedTime :: string
  url :: string
  properties :: "(string \<times> notion_property) list"

definition extract_title :: "(string \<times> notion_property) list \<Rightarrow> string" where
  "extract_title props =
     (let titleProperty = or_else (map_of props ''Title'') (or_else (map_of props ''Name'')
                            (or_else (map_of props ''title'') (map_of props ''name'')))
      in case titleProperty of
           Some p \<Rightarrow> (case prop_title p of Some (t # ts) \<Rightarrow> t | _ \<Rightarrow> ''Untitled'')
         | None \<Rightarrow> ''Untitled'')"

definition extract_status :: "(string \<times> notion_property) list \<Rightarrow> string" where
  "extract_status props =
     (let statusProperty = or_else (map_of props ''Status'') (map_of props ''status'')
      in case statusProperty of
           Some p \<Rightarrow> (case prop_select p of Some n \<Rightarrow> n | None \<Rightarrow> ''Unknown'')
         | None \<Rightarrow> ''Unknown'')"

definition extract_description :: "(string \<times> notion_property) list \<Rightarrow> string" where
  "extract_description props =
     (let descriptionProperty = or_else (map_of props ''Description'') (map_of props ''description'')
      in case descriptionProperty of
           Some p \<Rightarrow> (case prop_rich_text p of Some (t # ts) \<Rightarrow> t | _ \<Rightarrow> [])
         | None \<Rightarrow> [])"

definition extract_assignee :: "(string \<times> notion_property) list \<Rightarrow> string" where
  "extract_assignee props =
     (let assigneeProperty = or_else (map_of props ''Assignee'') (map_of props ''assignee'')
      in case assigneeProperty of
           Some p \<Rightarrow> (case prop_people p of Some (n # ns) \<Rightarrow> n | _ \<Rightarrow> [])
         | None \<Rightarrow> [])"

definition extract_priority :: "(string \<times> notion_property) list \<Rightarrow> string" where
  "extract_priority props =
     (let priorityProperty = or_else (map_of props ''Priority'') (map_of props ''priority'')
      in case priorityProperty of
           Some p \<Rightarrow> (case prop_select p of Some n \<Rightarrow> n | None \<Rightarrow> [])
         | None \<Rightarrow> [])"

text \<open>The callback of \<open>response.results.map\<close>, and the same lines of \<open>queryTaskDetails\<close>.\<close>

definition extract_task :: "notion_page \<Rightarrow> task" where
  "extract_task page =
     \<lparr> task_id = page_id page,
       title = extract_title (page_properties page),
       status = extract_status (page_properties page),
       description = extract_description (page_properties page),
       assignee = extract_assignee (page_properties page),
       priority = extract_priority (page_properties page),
       createdTime = page_created_time page,
       lastEditedTime = page_last_edited_time page,
       url = page_url page,
       properties = page_properties page \<rparr>"

subsection \<open>readKanbanBoard\<close>

record board_context =
  databaseId :: string
  statusFilter :: "string option"

record board_result =
  tasks :: "task list"

text \<open>
  The source builds two objects from \<open>databaseId\<close> and \<open>statusFilter\<close> (\<open>filter\<close> and
  \<open>queryParams\<close>) and passes neither on: the one call is \<open>notion.search(searchParams)\<close>.
\<close>

definition searchParams :: search_params where
  "searchParams = \<lparr> filter_value = ''page'', filter_property = ''object'', page_size = 100 \<rparr>"

definition readKanbanBoard_try :: "'n notion \<Rightarrow> board_context \<Rightarrow> ('n, board_result) notion_prog" where
  "readKanbanBoard_try notion c =
     await (quietly (getUncachableNotionClient notion)) (\<lambda>_.
     await (issue (notion_search notion searchParams) (Search searchParams)) (\<lambda>results.
     returns \<lparr> tasks = map extract_task results \<rparr>))"

definition readKanbanBoard_catch :: "thrown \<Rightarrow> ('n, board_result) notion_prog" where
  "readKanbanBoard_catch error = throws error"

definition readKanbanBoard :: "'n notion \<Rightarrow> board_context \<Rightarrow> ('n, board_result) notion_prog" where
  "readKanbanBoard notion c = try_catch (readKanbanBoard_try notion c) readKanbanBoard_catch"

subsection \<open>updateTaskStatus and addTaskComment\<close>

definition updateTaskStatus_try :: "'n notion \<Rightarrow> string \<Rightarrow> string \<Rightarrow> ('n, tool_result) notion_prog" where
  "updateTaskStatus_try notion pageId newStatus =
     await (quietly (getUncachableNotionClient notion)) (\<lambda>_.
     await (issue (pages_update notion pageId newStatus) (PagesUpdate pageId newStatus)) (\<lambda>_.
     returns \<lparr> success = True,
               message = ''Task status updated to '' @ dq @ newStatus @ dq \<rparr>))"

definition updateTaskStatus_catch :: "thrown \<Rightarrow> ('n, tool_result) notion_prog" where
  "updateTaskStatus_catch error =
     returns \<lparr> success = False,
               message = ''Failed to update task status: '' @ errorMessage error \<rparr>"

definition updateTaskStatus :: "'n notion \<Rightarrow> string \<Rightarrow> string \<Rightarrow> ('n, tool_result) notion_prog" where
  "updateTaskStatus notion pageId newStatus =
     try_catch (updateTaskStatus_try notion pageId newStatus) updateTaskStatus_catch"

definition addTaskComment_try :: "'n notion \<Rightarrow> string \<Rightarrow> string \<Rightarrow> ('n, tool_result) notion_prog" where
  "addTaskComment_try notion pageId comment =
     await (quietly (getUncachableNotionClient notion)) (\<lambda>_.
     await (issue (comments_create notion pageId comment) (CommentsCreate pageId comment)) (\<lambda>_.
     returns \<lparr> success = True, message = ''Comment added successfully'' \<rparr>))"

definition addTaskComment_catch :: "thrown \<Rightarrow> ('n, tool_result) notion_prog" where
  "addTaskComment_catch error =
     returns \<lparr> success = False,
               message = ''Failed to add comment: '' @ errorMessage error \<rparr>"

definition addTaskComment :: "'n notion \<Rightarrow> string \<Rightarrow> string \<Rightarrow> ('n, tool_result) notion_prog" where
  "addTaskComment notion pageId comment =
     try_catch (addTaskComment_try notion pageId comment) addTaskComment_catch"

subsection \<open>queryTaskDetails\<close>

record detailed_task = task +
  task_content :: string

record details_result =
  detailed :: detailed_task

text \<open>
  One block's line of the flattened text, by the first branch of the chain whose type
  and rich text are both there; a block of another type adds nothing.
\<close>

definition block_line :: "notion_block \<Rightarrow> string" where
  "block_line b =
     (if block_type b = ''paragraph'' \<and> block_paragraph b \<noteq> None
        then concat (the (block_paragraph b)) @ nl
      else if block_type b = ''heading_1'' \<and> block_heading_1 b \<noteq> None
        then ''# '' @ concat (the (block_heading_1 b)) @ nl
      else if block_type b = ''heading_2'' \<and> block_heading_2 b \<noteq> None
        then ''## '' @ concat (the (block_heading_2 b)) @ nl
      else if block_type b = ''heading_3'' \<and> block_heading_3 b \<noteq> None
        then ''### '' @ concat (the (block_heading_3 b)) @ nl
      else if block_type b = ''bulleted_list_item'' \<and> block_bulleted_list_item b \<noteq> None
        then ''- '' @ concat (the (block_bulleted_list_item b)) @ nl
      else if block_type b = ''numbered_list_item'' \<and> block_numbered_list_item b \<noteq> None
        then ''1. '' @ concat (the (block_numbered_list_item b)) @ nl
      else [])"

text \<open>\<open>String.prototype.trim\<close>: white space and line ends go from both ends.\<close>

definition trim :: "string \<Rightarrow> string" where
  "trim s = rev (dropWhile is_space (rev (dropWhile is_space s)))"

definition queryTaskDetails_try :: "'n notion \<Rightarrow> string \<Rightarrow> ('n, details_result) notion_prog" where
  "queryTaskDetails_try notion pageId =
     await (quietly (getUncachableNotionClient notion)) (\<lambda>_.
     await (issue (pages_retrieve notion pageId) (PagesRetrieve pageId)) (\<lambda>page.
     await (issue (blocks_children_list notion pageId) (BlocksChildrenList pageId)) (\<lambda>blocks.
     returns \<lparr> detailed = task.extend (extract_task page)
                 \<lparr> task_content = trim (concat (map block_line blocks)) \<rparr> \<rparr>)))"

definition queryTaskDetails_catch :: "thrown \<Rightarrow> ('n, details_result) notion_prog" where
  "queryTaskDetails_catch error = throws error"

definition queryTaskDetails :: "'n notion \<Rightarrow> string \<Rightarrow> ('n, details_result) notion_prog" where
  "queryTaskDetails notion pageId = try_catch (queryTaskDetails_try notion pageId) queryTaskDetails_catch"

subsection \<open>A concrete board host\<close>

text \<open>
  A workspace with two pages: a task still to do on the board \<open>board-1\<close>, and a finished
  one that belongs to another database.
\<close>

definition status_property :: "string \<Rightarrow> notion_property" where
  "status_property n =
     \<lparr> prop_title = None, prop_select = Some n, prop_rich_text = None, prop_people = None \<rparr>"

definition title_property :: "string \<Rightarrow> notion_property" where
  "title_property t =
     \<lparr> prop_title = Some [t], prop_select = None, prop_rich_text = None, prop_people = None \<rparr>"

definition todo_page :: notion_page where
  "todo_page =
     \<lparr> page_id = ''page-1'', page_created_time = ''2025-01-01T00:00:00.000Z'',
       page_last_edited_time = ''2025-01-02T00:00:00.000Z'', page_url = ''https://board/page-1'',
       page_parent_database = Some ''board-1'',
       page_properties = [(''Title'', title_property ''Add dark mode''),
                          (''Name'', title_property ''Dark mode (old name)''),
                          (''Status'', status_property ''To Do'')] \<rparr>"

definition done_page :: notion_page where
  "done_page =
     \<lparr> page_id = ''page-2'', page_created_time = ''2025-01-01T00:00:00.000Z'',
       page_last_edited_time = ''2025-01-03T00:00:00.000Z'', page_url = ''https://board/page-2'',
       page_parent_database = Some ''other-db'',
       page_properties = [(''Name'', title_property ''Quarterly report''),
                          (''Status'', status_property ''Done'')] \<rparr>"

definition demo_notion :: "unit notion" where
  "demo_notion =
     \<lparr> getUncachableNotionClient = (\<lambda>n. (Inr (), n)),
       notion_search = (\<lambda>params n. (Inr [todo_page, done_page], n)),
       pages_update = (\<lambda>pageId st n. (Inr (), n)),
       comments_create = (\<lambda>pageId text n. (Inr (), n)),
       pages_retrieve = (\<lambda>pageId n. (Inr todo_page, n)),
       blocks_children_list = (\<lambda>pageId n. (Inr [], n)) \<rparr>"

definition demo_board :: board_context where
  "demo_board = \<lparr> databaseId = ''board-1'', statusFilter = Some ''To Do'' \<rparr>"

text \<open>A page without any property.\<close>

definition bare_page :: notion_page where
  "bare_page =
     \<lparr> page_id = ''page-3'', page_created_time = ''2025-01-01T00:00:00.000Z'',
       page_last_edited_time = ''2025-01-01T00:00:00.000Z'', page_url = ''https://board/page-3'',
       page_parent_database = Some ''board-1'', page_properties = [] \<rparr>"

section \<open>The development tools\<close>

text \<open>
  These tools call no host. Their bodies log through \<open>logger?.info\<close>; the log calls are
  taken not to throw and are left out, as in the other tools.
\<close>

text \<open>\<open>Array.prototype.join\<close>\<close>

fun join :: "string \<Rightarrow> string list \<Rightarrow> string" where
  "join sep [] = []"
| "join sep [x] = x"
| "join sep (x # y # ys) = x @ sep @ join sep (y # ys)"

subsection \<open>analyzeCodebase\<close>

record analyze_context =
  repositoryPath :: string
  focusAreas :: "string list option"

record architecture_info =
  framework :: string
  language :: string
  patterns :: "string list"
  arch_structure :: string

record code_standards =
  naming :: string
  standards_structure :: string
  testingApproach :: string

record analysis =
  architecture :: architecture_info
  dependencies :: "string list"
  codeStandards :: code_standards
  recommendations :: "string list"

definition analyzeCodebase_try :: "analyze_context \<Rightarrow> ('s, analysis) prog" where
  "analyzeCodebase_try c =
     returns
       \<lparr> architecture =
           \<lparr> framework = ''Next.js/React'',
             language = ''TypeScript'',
             patterns = [''Component-based architecture'', ''Hook patterns'', ''API routes'',
                         ''Serverless functions''],
             arch_structure = ''Modular component structure with clear separation of concerns'' \<rparr>,
         dependencies = [''react'', ''next'', ''typescript'', ''@types/node'', ''@types/react'',
                         ''tailwindcss'', ''prisma'', ''@supabase/supabase-js'', ''stripe''],
         codeStandards =
           \<lparr> naming = ''camelCase for variables and functions, PascalCase for components, kebab-case for files'',
             standards_structure = ''Components in /components, pages in /pages, utilities in /utils, types in /types'',
             testingApproach = ''Jest + React Testing Library for unit tests, Playwright for E2E'' \<rparr>,
         recommendations =
           [''Follow existing component patterns when creating new features'',
            ''Ensure proper TypeScript typing for all new code'',
            ''Add comprehensive tests for new functionality'',
            ''Follow the established error handling patterns'',
            ''Use existing utility functions and hooks where possible'',
            ''Maintain consistent styling with Tailwind CSS classes'']
           @ (case focusAreas c of
                None \<Rightarrow> []
              | Some areas \<Rightarrow> [''Pay special attention to '' @ join '', '' areas
                                @ '' when implementing changes'']) \<rparr>"

definition analyzeCodebase_catch :: "thrown \<Rightarrow> ('s, analysis) prog" where
  "analyzeCodebase_catch error = throws error"

definition analyzeCodebase :: "analyze_context \<Rightarrow> ('s, analysis) prog" where
  "analyzeCodebase c = try_catch (analyzeCodebase_try c) analyzeCodebase_catch"

subsection \<open>implementCodeChanges\<close>

record implement_context =
  taskDescription :: string
  requirements :: string
  targetFiles :: "string list option"

definition destructiveKeywords :: "string list" where
  "destructiveKeywords =
     [''delete all'', ''remove everything'', ''clear database'', ''drop table'', ''truncate'',
      ''format drive'', ''rm -rf'']"

definition hasDestructiveIntent :: "implement_context \<Rightarrow> bool" where
  "hasDestructiveIntent c =
     list_ex (\<lambda>keyword. str_includes (toLowerCase (taskDescription c)) keyword
                        \<or> str_includes (toLowerCase (requirements c)) keyword)
       destructiveKeywords"

text \<open>
  The safety check opens the \<open>try\<close> and throws on a destructive task. What follows it
  builds the plan from canned text chosen by keyword checks and throws nothing; it is the
  parameter \<open>plan\<close> here.
\<close>

definition implementCodeChanges_try :: "(implement_context \<Rightarrow> 'p) \<Rightarrow> implement_context \<Rightarrow> ('s, 'p) prog" where
  "implementCodeChanges_try plan c =
     (if hasDestructiveIntent c
      then throws (Error ''SAFETY BLOCK: Task contains potentially destructive operations. Manual review required.'')
      else returns (plan c))"

definition implementCodeChanges_catch :: "thrown \<Rightarrow> ('s, 'p) prog" where
  "implementCodeChanges_catch error = throws error"

definition implementCodeChanges :: "(implement_context \<Rightarrow> 'p) \<Rightarrow> implement_context \<Rightarrow> ('s, 'p) prog" where
  "implementCodeChanges plan c = try_catch (implementCodeChanges_try plan c) implementCodeChanges_catch"

subsection \<open>runCodeTests\<close>

record tests_context =
  testType :: string
  test_targetFiles :: "string list option"
  coverage_wanted :: bool

record test_detail =
  detail_file :: string
  detail_status :: string
  detail_message :: "string option"

record test_results =
  passed :: nat
  failed :: nat
  total :: nat
  coverage :: "nat option"
  details :: "test_detail list"

record test_report =
  testResults :: test_results
  report_status :: string
  test_recommendations :: "string list"

definition runCodeTests_try :: "tests_context \<Rightarrow> ('s, test_report) prog" where
  "runCodeTests_try c =
     (let all_details =
            [\<lparr> detail_file = ''components/NewFeature.test.tsx'', detail_status = ''passed'',
               detail_message = Some ''All component tests passed'' \<rparr>,
             \<lparr> detail_file = ''hooks/useNewFeature.test.ts'', detail_status = ''passed'',
               detail_message = Some ''Hook tests passed'' \<rparr>,
             \<lparr> detail_file = ''integration/newFeature.test.ts'', detail_status = ''passed'',
               detail_message = Some ''Integration tests passed'' \<rparr>]
      in returns
           \<lparr> testResults =
               \<lparr> passed = 8, failed = 0, total = 8,
                 coverage = (if coverage_wanted c then Some 92 else None),
                 details = (case test_targetFiles c of
                              None \<Rightarrow> all_details
                            | Some files \<Rightarrow>
                                filter (\<lambda>detail. list_ex (\<lambda>file. str_includes (detail_file detail) file) files)
                                  all_details) \<rparr>,
             report_status = ''success'',
             test_recommendations =
               [''All tests are passing - good code quality'',
                ''Consider adding more edge case tests'',
                ''Code coverage is above 90% threshold''] \<rparr>)"

definition runCodeTests_catch :: "thrown \<Rightarrow> ('s, test_report) prog" where
  "runCodeTests_catch error =
     returns
       \<lparr> testResults =
           \<lparr> passed = 0, failed = 1, total = 1, coverage = None,
             details = [\<lparr> detail_file = ''test-runner'', detail_status = ''failed'',
                          detail_message = Some (''Test execution failed: '' @ errorMessage error) \<rparr>] \<rparr>,
         report_status = ''failed'',
         test_recommendations =
           [''Fix test execution issues before proceeding'',
            ''Check test configuration and dependencies''] \<rparr>"

definition runCodeTests :: "tests_context \<Rightarrow> ('s, test_report) prog" where
  "runCodeTests c = try_catch (runCodeTests_try c) runCodeTests_catch"

subsection \<open>validateCodeQuality\<close>

datatype severity = IssueError | IssueWarning | IssueInfo

record quality_issue =
  issue_file :: string
  issue_line :: "nat option"
  issue_type :: severity
  issue_category :: string
  issue_message :: string
  issue_suggestion :: "string option"

record quality_summary =
  summary_errors :: nat
  summary_warnings :: nat
  summary_passed :: bool

record quality_report =
  qualityScore :: int
  issues :: "quality_issue list"
  quality_summary :: quality_summary
  quality_recommendations :: "string list"

record quality_context =
  filePaths :: "string list"
  checks :: "string list"

text \<open>\<open>filePaths[0] || 'example.ts'\<close>\<close>

definition first_path :: "string list \<Rightarrow> string" where
  "first_path paths = (case paths of [] \<Rightarrow> ''example.ts'' | p # ps \<Rightarrow> if p = [] then ''example.ts'' else p)"

definition style_warning :: "string list \<Rightarrow> quality_issue" where
  "style_warning paths =
     \<lparr> issue_file = first_path paths, issue_line = None, issue_type = IssueWarning,
       issue_category = ''Style'',
       issue_message = ''Consider using more descriptive variable names'',
       issue_suggestion = None \<rparr>"

definition react_info :: "string \<Rightarrow> quality_issue" where
  "react_info filePath =
     \<lparr> issue_file = filePath, issue_line = None, issue_type = IssueInfo,
       issue_category = ''React'',
       issue_message = ''Component follows React patterns'',
       issue_suggestion = Some ''Ensure proper prop validation and accessibility attributes'' \<rparr>"

definition typescript_info :: "nat option \<Rightarrow> string \<Rightarrow> quality_issue" where
  "typescript_info line filePath =
     \<lparr> issue_file = filePath, issue_line = line, issue_type = IssueInfo,
       issue_category = ''TypeScript'',
       issue_message = ''File follows TypeScript best practices'',
       issue_suggestion = Some ''Consider adding JSDoc comments for better documentation'' \<rparr>"

definition standing_recommendations :: "string list" where
  "standing_recommendations =
     [''Code follows ZenQuill quality standards'',
      ''Continue following established patterns'',
      ''Add comprehensive error handling where needed'',
      ''Ensure proper logging is in place'',
      ''Consider performance implications for user-facing features'']"

text \<open>The issues one file adds in the loop of the registered tool.\<close>

definition file_issues :: "string \<Rightarrow> quality_issue list" where
  "file_issues filePath =
     (if suffix ''.tsx'' filePath \<or> suffix ''.ts'' filePath then [typescript_info (Some 1) filePath] else [])
     @ (if str_includes filePath ''component'' then [react_info filePath] else [])"

text \<open>The registered tool (\<open>tools/developmentTools.ts\<close>): the score starts at 95.\<close>

definition validateCodeQuality_try :: "quality_context \<Rightarrow> ('s, quality_report) prog" where
  "validateCodeQuality_try c =
     (let issues = concat (map file_issues (filePaths c)) @ [style_warning (filePaths c)];
          summary = \<lparr> summary_errors = length (filter (\<lambda>i. issue_type i = IssueError) issues),
                      summary_warnings = length (filter (\<lambda>i. issue_type i = IssueWarning) issues),
                      summary_passed = (length (filter (\<lambda>i. issue_type i = IssueError) issues) = 0) \<rparr>;
          qualityScore = 95 - (int (summary_errors summary) * 10 + int (summary_warnings summary) * 2);
          qualityScore = max 0 (min 100 qualityScore)
      in returns
           \<lparr> qualityScore = qualityScore,
             issues = issues,
             quality_summary = summary,
             quality_recommendations =
               (if summary_errors summary > 0 then [''Fix all error-level issues before deployment''] else [])
               @ standing_recommendations \<rparr>)"

definition validateCodeQuality_catch :: "thrown \<Rightarrow> ('s, quality_report) prog" where
  "validateCodeQuality_catch error = throws error"

definition validateCodeQuality :: "quality_context \<Rightarrow> ('s, quality_report) prog" where
  "validateCodeQuality c = try_catch (validateCodeQuality_try c) validateCodeQuality_catch"

text \<open>
  The repository holds a second copy of the development tools, in a file whose name is
  not known. Its \<open>validateCodeQuality\<close> differs: a file counts as TypeScript when its path
  includes \<open>.ts\<close>, the score starts at 100, the error count is the constant 0, and the
  catch block returns a report.
\<close>

definition file_issues_copy :: "string \<Rightarrow> quality_issue list" where
  "file_issues_copy filePath =
     (if str_includes filePath ''.ts'' \<or> str_includes filePath ''.tsx'' then [typescript_info None filePath] else [])
     @ (if str_includes filePath ''component'' then [react_info filePath] else [])"

definition validateCodeQuality_copy_try :: "quality_context \<Rightarrow> ('s, quality_report) prog" where
  "validateCodeQuality_copy_try c =
     (let issues = concat (map file_issues_copy (filePaths c)) @ [style_warning (filePaths c)];
          summary = \<lparr> summary_errors = 0,
                      summary_warnings = length (filter (\<lambda>i. issue_type i = IssueWarning) issues),
                      summary_passed = True \<rparr>;
          qualityScore = 100 - (int (summary_errors summary) * 10 + int (summary_warnings summary) * 2);
          qualityScore = max 0 (min 100 qualityScore)
      in returns
           \<lparr> qualityScore = qualityScore,
             issues = issues,
             quality_summary = summary,
             quality_recommendations =
               (if summary_errors summary > 0 then [''Fix all error-level issues before deployment''] else [])
               @ standing_recommendations \<rparr>)"

definition validateCodeQuality_copy_catch :: "thrown \<Rightarrow> ('s, quality_report) prog" where
  "validateCodeQuality_copy_catch error =
     returns
       \<lparr> qualityScore = 0,
         issues = [\<lparr> issue_file = ''quality-validator'', issue_line = None, issue_type = IssueError,
                     issue_category = ''System'',
                     issue_message = ''Quality validation failed: '' @ errorMessage error,
                     issue_suggestion = None \<rparr>],
         quality_summary = \<lparr> summary_errors = 1, summary_warnings = 0, summary_passed = False \<rparr>,
         quality_recommendations =
           [''Fix quality validation system issues'',
            ''Check file access permissions'',
            ''Retry validation after fixing system issues''] \<rparr>"

definition validateCodeQuality_copy :: "quality_context \<Rightarrow> ('s, quality_report) prog" where
  "validateCodeQuality_copy c = try_catch (validateCodeQuality_copy_try c) validateCodeQuality_copy_catch"

section \<open>The credential provider\<close>

text \<open>
  The connection settings the connector endpoint sends: \<open>settings.access_token\<close>,
  \<open>settings.expires_at\<close> and \<open>settings.oauth?.credentials?.access_token\<close>, each possibly
  missing. An item may come without \<open>settings\<close>.
\<close>

record connection_settings =
  access_token :: "string option"
  expires_at :: "string option"
  oauth_access_token :: "string option"

record connection =
  settings :: "connection_settings option"

record process_env =
  REPLIT_CONNECTORS_HOSTNAME :: "string option"
  REPL_IDENTITY :: "string option"
  WEB_REPL_RENEWAL :: "string option"

text \<open>A string or \<open>undefined\<close> in a condition: true when it is there and not empty.\<close>

definition truthy :: "string option \<Rightarrow> bool" where
  "truthy v = (case v of None \<Rightarrow> False | Some s \<Rightarrow> s \<noteq> [])"

text \<open>
  What the function reads from its surroundings: the environment, the clock
  (\<open>Date.now()\<close> in the world \<open>'w\<close>), the time a date string denotes
  (\<open>new Date(s).getTime()\<close>, \<open>None\<close> for \<open>NaN\<close>), and the connector endpoint, which answers
  a fetch of a URL under an identity header with \<open>data.items?.[0]\<close> or fails.
\<close>

record 'w platform =
  env :: process_env
  date_now :: "'w \<Rightarrow> int"
  date_getTime :: "string \<Rightarrow> int option"
  fetch_connection :: "string \<Rightarrow> string \<Rightarrow> 'w \<Rightarrow> (thrown + connection option) \<times> 'w"

datatype fetch_event = Fetch string string "thrown + connection option"

text \<open>The module variable \<open>connectionSettings\<close>, the world, and the fetches issued so far.\<close>

record 'w token_state =
  connectionSettings :: "connection option"
  world :: "'w"
  fetches :: "fetch_event list"

definition xReplitToken :: "process_env \<Rightarrow> string option" where
  "xReplitToken e =
     (if truthy (REPL_IDENTITY e) then Some (''repl '' @ the (REPL_IDENTITY e))
      else if truthy (WEB_REPL_RENEWAL e) then Some (''depl '' @ the (WEB_REPL_RENEWAL e))
      else None)"

definition connection_url :: "process_env \<Rightarrow> string" where
  "connection_url e =
     ''https://'' @ (case REPLIT_CONNECTORS_HOSTNAME e of None \<Rightarrow> ''undefined'' | Some h \<Rightarrow> h)
     @ ''/api/v2/connection?include_secrets=true&connector_names=github''"

text \<open>Reading a property of \<open>undefined\<close> throws a \<open>TypeError\<close>.\<close>

definition type_error :: "string \<Rightarrow> thrown" where
  "type_error field =
     Error (''Cannot read properties of undefined (reading '' @ [CHR 0x27] @ field @ [CHR 0x27] @ '')'')"

text \<open>The lines after the cache check: the fetch, the assignment and the token.\<close>

definition refresh :: "'w platform \<Rightarrow> ('w token_state, string option) prog" where
  "refresh P st =
     (case xReplitToken (env P) of
        None \<Rightarrow> (Inl (Error ''X_REPLIT_TOKEN not found for repl/depl''), st)
      | Some header \<Rightarrow>
          (case fetch_connection P (connection_url (env P)) header (world st) of
             (out, w') \<Rightarrow>
               (let st1 = st \<lparr> world := w', fetches := fetches st @ [Fetch (connection_url (env P)) header out] \<rparr>
                in case out of
                     Inl e \<Rightarrow> (Inl e, st1)
                   | Inr item \<Rightarrow>
                       (let st2 = st1 \<lparr> connectionSettings := item \<rparr>
                        in case item of
                             None \<Rightarrow> (Inl (type_error ''settings''), st2)
                           | Some conn \<Rightarrow>
                               (case settings conn of
                                  None \<Rightarrow> (Inl (Error ''GitHub not connected''), st2)
                                | Some s \<Rightarrow>
                                    (let accessToken = (if truthy (access_token s) then access_token s
                                                        else oauth_access_token s)
                                     in if \<not> truthy accessToken
                                        then (Inl (Error ''GitHub not connected''), st2)
                                        else (Inr accessToken, st2)))))))"

text \<open>
  \<open>getAccessToken\<close>. The first \<open>if\<close> returns \<open>connectionSettings.settings.access_token\<close>
  as it stands, a string or \<open>undefined\<close>.
\<close>

definition getAccessToken :: "'w platform \<Rightarrow> ('w token_state, string option) prog" where
  "getAccessToken P st =
     (case connectionSettings st of
        None \<Rightarrow> refresh P st
      | Some conn \<Rightarrow>
          (case settings conn of
             None \<Rightarrow> (Inl (type_error ''expires_at''), st)
           | Some s \<Rightarrow>
               if truthy (expires_at s)
                  \<and> (case date_getTime P (the (expires_at s)) of
                        None \<Rightarrow> False
                      | Some t \<Rightarrow> t > date_now P (world st))
               then (Inr (access_token s), st)
               else refresh P st))"

subsection \<open>A connector that sends the token under the OAuth credentials\<close>

definition oauth_only :: connection where
  "oauth_only =
     \<lparr> settings = Some \<lparr> access_token = None, expires_at = Some ''2030-01-01T00:00:00Z'',
                          oauth_access_token = Some ''gho_abc'' \<rparr> \<rparr>"

definition demo_platform :: "unit platform" where
  "demo_platform =
     \<lparr> env = \<lparr> REPLIT_CONNECTORS_HOSTNAME = Some ''connectors.example'',
               REPL_IDENTITY = Some ''identity'', WEB_REPL_RENEWAL = None \<rparr>,
       date_now = (\<lambda>w. 1767225600000),
       date_getTime = (\<lambda>s. if s = ''2030-01-01T00:00:00Z'' then Some 1893456000000 else None),
       fetch_connection = (\<lambda>u header w. (Inr (Some oauth_only), w)) \<rparr>"

definition empty_cache :: "unit token_state" where
  "empty_cache = \<lparr> connectionSettings = None, world = (), fetches = [] \<rparr>"

section \<open>Reading the agent's text\<close>

text \<open>
  The notions in which the metrics of the step are stated. Two texts are the same up
  to case when their characters have the same canonical forms.
\<close>

definition ci_eq :: "string \<Rightarrow> string \<Rightarrow> bool" where
  "ci_eq u v = (map canonicalize u = map canonicalize v)"

text \<open>
  \<open>s\<close> begins with a task count \<open>ds\<close>: a run of digits, white space (or none), the word
  \<open>task\<close> or \<open>tasks\<close>, white space (or none), and one of the three verbs.
\<close>

definition reads_task_count :: "string \<Rightarrow> string \<Rightarrow> bool" where
  "reads_task_count s ds \<longleftrightarrow>
     (\<exists>ws1 w p ws2 v rest.
        s = ds @ ws1 @ w @ p @ ws2 @ v @ rest
      \<and> ds \<noteq> [] \<and> list_all is_digit ds
      \<and> list_all is_space ws1
      \<and> ci_eq w ''task'' \<and> (p = [] \<or> ci_eq p ''s'')
      \<and> list_all is_space ws2
      \<and> (ci_eq v ''processed'' \<or> ci_eq v ''completed'' \<or> ci_eq v ''handled''))"

text \<open>
  \<open>s\<close> begins with the pull-request mention \<open>m\<close>: the words \<open>pull request\<close> or
  \<open>pull requests\<close>, white space (or none), a \<open>#\<close> (or none), and a run of digits that
  goes as far as the digits go.
\<close>

definition reads_pull_request :: "string \<Rightarrow> string \<Rightarrow> bool" where
  "reads_pull_request s m \<longleftrightarrow>
     (\<exists>w p ws h ds rest.
        s = m @ rest \<and> m = w @ p @ ws @ h @ ds
      \<and> ci_eq w ''pull request'' \<and> (p = [] \<or> ci_eq p ''s'')
      \<and> list_all is_space ws
      \<and> (h = [] \<or> h = ''#'')
      \<and> ds \<noteq> [] \<and> list_all is_digit ds
      \<and> (rest = [] \<or> \<not> is_digit (hd rest)))"

subsection \<open>The two patterns as direct scans\<close>

text \<open>
  What the backtracking matcher computes on the two patterns, written as scans from the
  left; the proofs go through these.
\<close>

definition ci_prefix :: "string \<Rightarrow> string \<Rightarrow> bool" where
  "ci_prefix w s = (length w \<le> length s \<and> ci_eq (take (length w) s) w)"

definition skip_opt :: "cls \<Rightarrow> string \<Rightarrow> string" where
  "skip_opt c s = (case s of [] \<Rightarrow> [] | x # xs \<Rightarrow> if cls_matches c x then xs else x # xs)"

definition verb_at :: "string \<Rightarrow> bool" where
  "verb_at s = (ci_prefix ''processed'' s \<or> ci_prefix ''completed'' s \<or> ci_prefix ''handled'' s)"

definition task_count_at :: "string \<Rightarrow> string option" where
  "task_count_at s =
     (if s \<noteq> [] \<and> is_digit (hd s)
         \<and> ci_prefix ''task'' (dropWhile is_space (dropWhile is_digit s))
         \<and> verb_at (dropWhile is_space (skip_opt (Ch CHR ''s'')
                      (drop 4 (dropWhile is_space (dropWhile is_digit s)))))
      then Some (takeWhile is_digit s) else None)"

fun first_task_count :: "string \<Rightarrow> string option" where
  "first_task_count [] = None"
| "first_task_count (x # xs) =
     (case task_count_at (x # xs) of Some ds \<Rightarrow> Some ds | None \<Rightarrow> first_task_count xs)"

text \<open>The text left after a pull-request mention at the head of \<open>s\<close>, if there is one.\<close>

definition pull_request_rest :: "string \<Rightarrow> string option" where
  "pull_request_rest s =
     (if ci_prefix ''pull request'' s
      then (let s4 = skip_opt (Ch CHR ''#'') (dropWhile is_space (skip_opt (Ch CHR ''s'') (drop 12 s)))
            in if s4 \<noteq> [] \<and> is_digit (hd s4) then Some (dropWhile is_digit s4) else None)
      else None)"

fun all_mentions :: "string \<Rightarrow> string list" where
  "all_mentions [] = []"
| "all_mentions (x # xs) =
     (case pull_request_rest (x # xs) of
        Some rest \<Rightarrow> take (length (x # xs) - length rest) (x # xs) # all_mentions xs
      | None \<Rightarrow> all_mentions xs)"

section \<open>Facts about strings\<close>

lemma str_includes_iff: "str_includes s t \<longleftrightarrow> (\<exists>p q. s = p @ t @ q)"
proof (induction s)
  case Nil
  then show ?case by auto
next
  case (Cons x xs)
  show ?case
  proof
    assume "str_includes (x # xs) t"
    then consider "prefix t (x # xs)" | "str_includes xs t" by auto
    then show "\<exists>p q. x # xs = p @ t @ q"
    proof cases
      case 1
      then obtain q where "x # xs = t @ q" by (auto simp: prefix_def)
      then have "x # xs = [] @ t @ q" by simp
      then show ?thesis by blast
    next
      case 2
      then obtain p q where "xs = p @ t @ q" using Cons.IH by auto
      then have "x # xs = (x # p) @ t @ q" by simp
      then show ?thesis by blast
    qed
  next
    assume "\<exists>p q. x # xs = p @ t @ q"
    then obtain p q where pq: "x # xs = p @ t @ q" by auto
    show "str_includes (x # xs) t"
    proof (cases p)
      case Nil
      then have "prefix t (x # xs)" using pq by (metis append_Nil prefixI)
      then show ?thesis by simp
    next
      case (Cons y ys)
      then have "xs = ys @ t @ q" using pq by simp
      then show ?thesis using Cons.IH by auto
    qed
  qed
qed

section \<open>The step when the agent throws\<close>

text \<open>
  C7. When the agent invocation throws, the task-discovery step does not pass the
  exception on: it returns a result with \<open>tasksProcessed = 0\<close>, no completed task, and
  exactly one error string, which contains the message of the thrown value.
\<close>

theorem taskDiscoveryStep_agent_throws:
  assumes "generate s = (Inl e, s')"
  shows "\<exists>r msg. taskDiscoveryStep (Some generate) s = (Inr r, s')
           \<and> tasksProcessed r = Num 0 \<and> completedTasks r = []
           \<and> errors r = [msg] \<and> str_includes msg (errorMessage e)"
proof -
  have "str_includes (''Workflow execution failed: '' @ errorMessage e) (errorMessage e)"
    unfolding str_includes_iff by (metis append_Nil2)
  then show ?thesis
    using assms
    by (simp add: taskDiscoveryStep_def taskDiscoveryStep_try_def taskDiscoveryStep_catch_def
        try_catch_def await_def returns_def)
qed

theorem taskDiscoveryStep_agent_throws_witness:
  "\<exists>r msg. taskDiscoveryStep (Some (throws (Error ''model call failed''))) () = (Inr r, ())
      \<and> tasksProcessed r = Num 0 \<and> completedTasks r = []
      \<and> errors r = [msg] \<and> str_includes msg ''model call failed''"
  using taskDiscoveryStep_agent_throws [of "throws (Error ''model call failed'')" "()" "Error ''model call failed''" "()"]
  by (simp add: throws_def)

section \<open>Facts about runs\<close>

lemma await_Inr:
  "await m f s = (Inr y, t) \<Longrightarrow> \<exists>x s'. m s = (Inr x, s') \<and> f x s' = (Inr y, t)"
  by (auto simp: await_def split: prod.splits sum.splits)

lemma issue_Inr:
  "issue f ev (h, log) = (Inr x, (h', log')) \<Longrightarrow> f h = (Inr x, h') \<and> log' = log @ [ev (Inr x)]"
  by (auto simp: issue_def split: prod.splits)

lemma quietly_Inr:
  "quietly f (h, log) = (Inr x, (h', log')) \<Longrightarrow> f h = (Inr x, h') \<and> log' = log"
  by (auto simp: quietly_def split: prod.splits)

lemmas run_defs = await_def issue_def quietly_def returns_def throws_def try_catch_def

section \<open>Promises that settle together\<close>

lemma first_rejection_in: "first_rejection rs = Some (t, e) \<Longrightarrow> (t, Inl e) \<in> set rs"
proof (induction rs arbitrary: t e rule: first_rejection.induct)
  case 1
  then show ?case by simp
next
  case (2 t' x rs)
  then show ?case by simp
next
  case (3 t' e' rs)
  then show ?case
    by (cases "first_rejection rs") (auto split: if_splits)
qed

lemma first_rejection_none: "first_rejection rs = None \<Longrightarrow> map snd rs = map Inr (fulfilled rs)"
proof (induction rs rule: first_rejection.induct)
  case 1
  then show ?case by simp
next
  case (2 t x rs)
  then show ?case by simp
next
  case (3 t e rs)
  then show ?case
    by (cases "first_rejection rs") (auto split: if_splits)
qed

lemma promise_all_run:
  "settle_all clk ps s = (rs, s') \<Longrightarrow>
   promise_all clk ps s =
     (case first_rejection rs of Some (t, e) \<Rightarrow> (Inl e, s') | None \<Rightarrow> (Inr (fulfilled rs), s'))"
  by (simp add: promise_all_def)

section \<open>commitCode: the calls of a commit\<close>

lemma create_blob_run:
  "create_blob G c f (h, log) =
     (case git_createBlob G (cc_owner c) (cc_repo c) (file_content f) (file_encoding f) h of
        (r, h') \<Rightarrow> ((case r of Inl e \<Rightarrow> Inl e | Inr b \<Rightarrow> Inr (blob_entry f b)),
                    (h', log @ [CreateBlob (cc_owner c) (cc_repo c) (file_content f) (file_encoding f) r])))"
  by (auto simp: create_blob_def await_def issue_def returns_def split: prod.splits sum.splits)

text \<open>
  The blob fan-out issues one call per file, in the order of the files, whatever the
  outcomes.
\<close>

lemma blobs_settled:
  "settle_all clk (map (create_blob G c) fs) (h, log) = (rs, (h', log')) \<Longrightarrow>
   \<exists>outs. length outs = length fs
     \<and> map snd rs = map2 (\<lambda>f out. case out of Inl e \<Rightarrow> Inl e | Inr b \<Rightarrow> Inr (blob_entry f b)) fs outs
     \<and> log' = log @ map2 (\<lambda>f out. CreateBlob (cc_owner c) (cc_repo c) (file_content f) (file_encoding f) out) fs outs"
proof (induction fs arbitrary: h log rs h' log')
  case Nil
  then show ?case by auto
next
  case (Cons f fs)
  obtain r1 h1 where b: "git_createBlob G (cc_owner c) (cc_repo c) (file_content f) (file_encoding f) h = (r1, h1)"
    by (cases "git_createBlob G (cc_owner c) (cc_repo c) (file_content f) (file_encoding f) h") auto
  let ?ev = "CreateBlob (cc_owner c) (cc_repo c) (file_content f) (file_encoding f) r1"
  obtain rs' h2 log2 where rest: "settle_all clk (map (create_blob G c) fs) (h1, log @ [?ev]) = (rs', (h2, log2))"
    by (metis surj_pair)
  from Cons.IH[OF rest] obtain outs where o: "length outs = length fs"
     "map snd rs' = map2 (\<lambda>f out. case out of Inl e \<Rightarrow> Inl e | Inr b \<Rightarrow> Inr (blob_entry f b)) fs outs"
     "log2 = (log @ [?ev]) @ map2 (\<lambda>f out. CreateBlob (cc_owner c) (cc_repo c) (file_content f) (file_encoding f) out) fs outs"
    by blast
  have run: "create_blob G c f (h, log) =
      ((case r1 of Inl e \<Rightarrow> Inl e | Inr b \<Rightarrow> Inr (blob_entry f b)), (h1, log @ [?ev]))"
    using b by (simp add: create_blob_run)
  have res: "rs = (clk (h1, log @ [?ev]), (case r1 of Inl e \<Rightarrow> Inl e | Inr b \<Rightarrow> Inr (blob_entry f b))) # rs'" "h' = h2" "log' = log2"
    using Cons.prems run rest by auto
  show ?case
    by (rule exI[of _ "r1 # outs"]) (use o res in simp)
qed

lemma blobs_issued:
  assumes "promise_all clk (map (create_blob G c) fs) (h, log) = (r, (h', log'))"
  shows "\<exists>outs. length outs = length fs
     \<and> log' = log @ map2 (\<lambda>f out. CreateBlob (cc_owner c) (cc_repo c) (file_content f) (file_encoding f) out) fs outs
     \<and> (case r of
          Inr es \<Rightarrow> \<exists>shas. outs = map Inr shas \<and> es = map2 blob_entry fs shas
        | Inl e \<Rightarrow> Inl e \<in> set outs)"
proof -
  obtain rs s' where st: "settle_all clk (map (create_blob G c) fs) (h, log) = (rs, s')"
    by (metis surj_pair)
  have run: "(r, (h', log')) =
      (case first_rejection rs of Some (t, e) \<Rightarrow> (Inl e, s') | None \<Rightarrow> (Inr (fulfilled rs), s'))"
    using assms promise_all_run[OF st] by simp
  then have s': "s' = (h', log')"
    by (auto split: option.splits)
  from blobs_settled[OF st[unfolded s']] obtain outs where o: "length outs = length fs"
     "map snd rs = map2 (\<lambda>f out. case out of Inl e \<Rightarrow> Inl e | Inr b \<Rightarrow> Inr (blob_entry f b)) fs outs"
     "log' = log @ map2 (\<lambda>f out. CreateBlob (cc_owner c) (cc_repo c) (file_content f) (file_encoding f) out) fs outs"
    by blast
  have entries: "\<exists>shas. outs = map Inr shas \<and> es = map2 blob_entry fs shas"
    if "map2 (\<lambda>f out. case out of Inl e \<Rightarrow> Inl e | Inr b \<Rightarrow> Inr (blob_entry f b)) fs outs = map Inr es" for es
    using that o(1)
  proof (induction fs arbitrary: outs es)
    case Nil
    then show ?case by auto
  next
    case (Cons f fs)
    then obtain out outs' where outs: "outs = out # outs'" "length outs' = length fs"
      by (cases outs) auto
    from Cons.prems(1) obtain x es' where es: "es = x # es'"
      unfolding outs by (cases es) auto
    from Cons.prems(1) have hd: "(case out of Inl e \<Rightarrow> Inl e | Inr b \<Rightarrow> Inr (blob_entry f b)) = Inr x"
      and tl: "map2 (\<lambda>f out. case out of Inl e \<Rightarrow> Inl e | Inr b \<Rightarrow> Inr (blob_entry f b)) fs outs' = map Inr es'"
      unfolding outs es by auto
    from hd obtain sha where sha: "out = Inr sha" "x = blob_entry f sha"
      by (cases out) auto
    from Cons.IH[OF tl outs(2)] obtain shas where "outs' = map Inr shas" "es' = map2 blob_entry fs shas"
      by blast
    then show ?case
      unfolding outs es sha by (intro exI[of _ "sha # shas"]) simp
  qed
  have rejected: "Inl e \<in> set outs" if "(t, Inl e) \<in> set rs" for t e
  proof -
    from that have "Inl e \<in> set (map snd rs)" by force
    then obtain f out where "(f, out) \<in> set (zip fs outs)"
      "(case out of Inl e \<Rightarrow> Inl e | Inr b \<Rightarrow> Inr (blob_entry f b)) = Inl e"
      unfolding o(2) by auto
    moreover then have "out = Inl e" by (cases out) auto
    ultimately show ?thesis by (auto dest: set_zip_rightD)
  qed
  show ?thesis
  proof (cases "first_rejection rs")
    case None
    then have "r = Inr (fulfilled rs)" using run by simp
    moreover from first_rejection_none[OF None] o(2)
    have "map2 (\<lambda>f out. case out of Inl e \<Rightarrow> Inl e | Inr b \<Rightarrow> Inr (blob_entry f b)) fs outs = map Inr (fulfilled rs)" by simp
    ultimately show ?thesis using o(1,3) entries by (intro exI[of _ outs]) simp
  next
    case (Some te)
    obtain t e where te: "te = (t, e)" by (cases te)
    then have "r = Inl e" using run Some by simp
    moreover have "Inl e \<in> set outs"
      using first_rejection_in[OF Some[unfolded te]] by (rule rejected)
    ultimately show ?thesis using o(1,3) by (intro exI[of _ outs]) simp
  qed
qed

text \<open>
  Every run of \<open>commitCode\<close>, by the first step that fails: the calls issued, and the
  result.
\<close>

lemma commitCode_log:
  "\<exists>r h' log. commitCode G c (h, log0) = (Inr r, (h', log)) \<and>
     ((success r \<and>
       (\<exists>head base shas tree new.
           length shas = length (cc_files c)
         \<and> log = log0 @ [GetRef (cc_owner c) (cc_repo c) (''heads/'' @ cc_branch c) (Inr head),
                  GetCommit (cc_owner c) (cc_repo c) head (Inr base)]
               @ blob_calls c (map Inr shas)
               @ [CreateTree (cc_owner c) (cc_repo c) base (map2 blob_entry (cc_files c) shas) (Inr tree),
                  CreateCommit (cc_owner c) (cc_repo c) (cc_message c) tree [head] (Inr new),
                  UpdateRef (cc_owner c) (cc_repo c) (''heads/'' @ cc_branch c) new (Inr ())]
         \<and> commitSha r = Some new))
    \<or> (success r = False \<and> commitSha r = None \<and>
        (log = log0
       \<or> (\<exists>e. log = log0 @ [GetRef (cc_owner c) (cc_repo c) (''heads/'' @ cc_branch c) (Inl e)])
       \<or> (\<exists>head e.
             log = log0 @ [GetRef (cc_owner c) (cc_repo c) (''heads/'' @ cc_branch c) (Inr head),
                    GetCommit (cc_owner c) (cc_repo c) head (Inl e)])
       \<or> (\<exists>head base outs e.
             length outs = length (cc_files c) \<and> Inl e \<in> set outs
           \<and> log = log0 @ [GetRef (cc_owner c) (cc_repo c) (''heads/'' @ cc_branch c) (Inr head),
                    GetCommit (cc_owner c) (cc_repo c) head (Inr base)]
                 @ blob_calls c outs)
       \<or> (\<exists>head base shas e.
             length shas = length (cc_files c)
           \<and> log = log0 @ [GetRef (cc_owner c) (cc_repo c) (''heads/'' @ cc_branch c) (Inr head),
                    GetCommit (cc_owner c) (cc_repo c) head (Inr base)]
                 @ blob_calls c (map Inr shas)
                 @ [CreateTree (cc_owner c) (cc_repo c) base (map2 blob_entry (cc_files c) shas) (Inl e)])
       \<or> (\<exists>head base shas tree e.
             length shas = length (cc_files c)
           \<and> log = log0 @ [GetRef (cc_owner c) (cc_repo c) (''heads/'' @ cc_branch c) (Inr head),
                    GetCommit (cc_owner c) (cc_repo c) head (Inr base)]
                 @ blob_calls c (map Inr shas)
                 @ [CreateTree (cc_owner c) (cc_repo c) base (map2 blob_entry (cc_files c) shas) (Inr tree),
                    CreateCommit (cc_owner c) (cc_repo c) (cc_message c) tree [head] (Inl e)])
       \<or> (\<exists>head base shas tree new e.
             length shas = length (cc_files c)
           \<and> log = log0 @ [GetRef (cc_owner c) (cc_repo c) (''heads/'' @ cc_branch c) (Inr head),
                    GetCommit (cc_owner c) (cc_repo c) head (Inr base)]
                 @ blob_calls c (map Inr shas)
                 @ [CreateTree (cc_owner c) (cc_repo c) base (map2 blob_entry (cc_files c) shas) (Inr tree),
                    CreateCommit (cc_owner c) (cc_repo c) (cc_message c) tree [head] (Inr new),
                    UpdateRef (cc_owner c) (cc_repo c) (''heads/'' @ cc_branch c) new (Inl e)]))))"
  (is "\<exists>r h' log. ?run r h' log \<and> ?shape r log")
proof -
  let ?o = "cc_owner c" and ?p = "cc_repo c" and ?ref = "''heads/'' @ cc_branch c"
  let ?failure = "\<lambda>e. \<lparr> success = False, message = ''Failed to commit code: '' @ errorMessage e,
                          commitSha = None \<rparr>"
  note defs = commitCode_def commitCode_try_def commitCode_catch_def run_defs
  have fin: "?thesis" if "?run r h' log" "?shape r log" for r h' log
    using that by (intro exI[of _ r] exI[of _ h'] exI[of _ log] conjI)
  obtain u h0 where cl: "getUncachableGitHubClient G h = (u, h0)" by (metis surj_pair)
  show ?thesis
  proof (cases u)
    case (Inl e)
    have "?run (?failure e) h0 log0"
      using cl Inl by (simp add: defs)
    moreover have "?shape (?failure e) log0" by simp
    ultimately show ?thesis by (rule fin)
  next
    case client: (Inr u')
    obtain r1 h1 where c1: "git_getRef G ?o ?p ?ref h0 = (r1, h1)" by (metis surj_pair)
    show ?thesis
    proof (cases r1)
      case (Inl e)
      have "?run (?failure e) h1 (log0 @ [GetRef ?o ?p ?ref (Inl e)])"
        using cl client c1 Inl by (simp add: defs)
      moreover have "?shape (?failure e) (log0 @ [GetRef ?o ?p ?ref (Inl e)])" by simp
      ultimately show ?thesis by (rule fin)
    next
      case head: (Inr head)
      obtain r2 h2 where c2: "git_getCommit G ?o ?p head h1 = (r2, h2)" by (metis surj_pair)
      let ?log2 = "\<lambda>r2. log0 @ [GetRef ?o ?p ?ref (Inr head), GetCommit ?o ?p head r2]"
      show ?thesis
      proof (cases r2)
        case (Inl e)
        have "?run (?failure e) h2 (?log2 (Inl e))"
          using cl client c1 head c2 Inl by (simp add: defs)
        moreover have "?shape (?failure e) (?log2 (Inl e))" by simp
        ultimately show ?thesis by (rule fin)
      next
        case base: (Inr base)
        obtain r3 h3 log3 where c3:
          "promise_all (clock G) (map (create_blob G c) (cc_files c)) (h2, ?log2 (Inr base)) = (r3, (h3, log3))"
          by (metis surj_pair)
        from blobs_issued[OF c3] obtain outs where outs: "length outs = length (cc_files c)"
          "log3 = ?log2 (Inr base) @ blob_calls c outs"
          "case r3 of Inr es \<Rightarrow> \<exists>shas. outs = map Inr shas \<and> es = map2 blob_entry (cc_files c) shas
                    | Inl e \<Rightarrow> Inl e \<in> set outs"
          unfolding blob_calls_def by blast
        show ?thesis
        proof (cases r3)
          case (Inl e)
          have "?run (?failure e) h3 log3"
            using cl client c1 head c2 base c3 Inl by (simp add: defs)
          moreover have "Inl e \<in> set outs" using outs(3) Inl by simp
          then have "?shape (?failure e) log3"
            using outs(1,2) by auto
          ultimately show ?thesis by (rule fin)
        next
          case blobs: (Inr es)
          then obtain shas where shas: "outs = map Inr shas" "es = map2 blob_entry (cc_files c) shas"
            using outs(3) by auto
          have len: "length shas = length (cc_files c)" using outs(1) shas(1) by simp
          obtain r4 h4 where c4: "git_createTree G ?o ?p base es h3 = (r4, h4)" by (metis surj_pair)
          let ?log4 = "\<lambda>r4. log3 @ [CreateTree ?o ?p base es r4]"
          show ?thesis
          proof (cases r4)
            case (Inl e)
            have "?run (?failure e) h4 (?log4 (Inl e))"
              using cl client c1 head c2 base c3 blobs c4 Inl by (simp add: defs)
            moreover have "?shape (?failure e) (?log4 (Inl e))"
              using outs(2) shas len by auto
            ultimately show ?thesis by (rule fin)
          next
            case tree: (Inr tree)
            obtain r5 h5 where c5: "git_createCommit G ?o ?p (cc_message c) tree [head] h4 = (r5, h5)"
              by (metis surj_pair)
            let ?log5 = "\<lambda>r5. ?log4 (Inr tree) @ [CreateCommit ?o ?p (cc_message c) tree [head] r5]"
            show ?thesis
            proof (cases r5)
              case (Inl e)
              have "?run (?failure e) h5 (?log5 (Inl e))"
                using cl client c1 head c2 base c3 blobs c4 tree c5 Inl by (simp add: defs)
              moreover have "?shape (?failure e) (?log5 (Inl e))"
                using outs(2) shas len by auto
              ultimately show ?thesis by (rule fin)
            next
              case new: (Inr new)
              obtain r6 h6 where c6: "git_updateRef G ?o ?p ?ref new h5 = (r6, h6)"
                by (metis surj_pair)
              let ?log6 = "\<lambda>r6. ?log5 (Inr new) @ [UpdateRef ?o ?p ?ref new r6]"
              show ?thesis
              proof (cases r6)
                case (Inl e)
                have "?run (?failure e) h6 (?log6 (Inl e))"
                  using cl client c1 head c2 base c3 blobs c4 tree c5 new c6 Inl by (simp add: defs)
                moreover have "?shape (?failure e) (?log6 (Inl e))"
                  using outs(2) shas len by auto
                ultimately show ?thesis by (rule fin)
              next
                case (Inr u6)
                let ?r = "\<lparr> success = True,
                           message = ''Successfully committed '' @ decimal (length (cc_files c))
                                     @ '' files to branch '' @ dq @ cc_branch c @ dq,
                           commitSha = Some new \<rparr>"
                have "?run ?r h6 (?log6 (Inr ()))"
                  using cl client c1 head c2 base c3 blobs c4 tree c5 new c6 Inr by (simp add: defs)
                moreover have "?shape ?r (?log6 (Inr ()))"
                  using outs(2) shas len by auto
                ultimately show ?thesis by (rule fin)
              qed
            qed
          qed
        qed
      qed
    qed
  qed
qed


lemmas commit_defs = commitCode_def commitCode_try_def commitCode_catch_def create_blob_def blob_entry_def
  promise_all_def clock_def demo_github_def tree_rejecting_github_def demo_commit_def



text \<open>
  Two files whose blobs are both rejected: both calls are issued, and the failure the
  tool reports is the one that arrived first, here that of the second file.
\<close>

lemma commitCode_blobs_rejected:
  "commitCode blob_rejecting_github two_files_commit (0, []) =
     (Inr \<lparr> success = False, message = ''Failed to commit code: blob B rejected'', commitSha = None \<rparr>,
      (2, [GetRef ''acme'' ''app'' ''heads/feature'' (Inr ''c0ffee''),
           GetCommit ''acme'' ''app'' ''c0ffee'' (Inr ''7ree00''),
           CreateBlob ''acme'' ''app'' ''A'' Utf8 (Inl (Error ''blob A rejected'')),
           CreateBlob ''acme'' ''app'' ''B'' Utf8 (Inl (Error ''blob B rejected''))]))"
  by (simp add: commitCode_def commitCode_try_def commitCode_catch_def create_blob_def blob_entry_def
      promise_all_def clock_def blob_rejecting_github_def two_files_commit_def run_defs)

section \<open>createPullRequest: reviewers are requested after the creation\<close>

lemma createPullRequest_runs:
  assumes "pc_reviewers c = Some rs" and "rs \<noteq> []"
    and "createPullRequest G c (h, []) = (res, (h', log))"
  shows "(log = [] \<and> (\<exists>r. res = Inr r \<and> \<not> success r))
       \<or> (\<exists>e. log = [PullsCreate (pc_owner c) (pc_repo c) (pc_title c) (pc_head c) (pc_base c) (prBody c) (pc_draft c) (Inl e)]
              \<and> (\<exists>r. res = Inr r \<and> \<not> success r))
       \<or> (\<exists>pr e. log = [PullsCreate (pc_owner c) (pc_repo c) (pc_title c) (pc_head c) (pc_base c) (prBody c) (pc_draft c) (Inr pr),
                       RequestReviewers (pc_owner c) (pc_repo c) (pr_number pr) rs (Inl e)]
              \<and> (\<exists>r. res = Inr r \<and> \<not> success r))
       \<or> (\<exists>pr. log = [PullsCreate (pc_owner c) (pc_repo c) (pc_title c) (pc_head c) (pc_base c) (prBody c) (pc_draft c) (Inr pr),
                       RequestReviewers (pc_owner c) (pc_repo c) (pr_number pr) rs (Inr ())]
              \<and> (\<exists>r. res = Inr r \<and> success r \<and> pullRequestNumber r = Some (pr_number pr)))"
  using assms
  by (auto simp: createPullRequest_def createPullRequest_try_def createPullRequest_catch_def run_defs
      split: prod.splits sum.splits)

text \<open>
  C2. For a call to \<open>createPullRequest\<close> with a non-empty reviewers list: a
  reviewer-request call in the log comes after a pull-request creation that succeeded
  (and asks for that pull request's number); when the creation failed the log holds no
  reviewer-request call; and when the pull request was created and the reviewer request
  failed, the tool returns \<open>success = false\<close>.
\<close>

theorem createPullRequest_reviewers_after_creation:
  assumes "pc_reviewers c = Some rs" and "rs \<noteq> []"
    and "createPullRequest G c (h, []) = (res, (h', log))"
  shows "(\<forall>i owner repo n rs' out. i < length log \<and> log ! i = RequestReviewers owner repo n rs' out \<longrightarrow>
            (\<exists>j pr. j < i \<and> n = pr_number pr \<and> rs' = rs \<and>
               log ! j = PullsCreate (pc_owner c) (pc_repo c) (pc_title c) (pc_head c) (pc_base c) (prBody c) (pc_draft c) (Inr pr)))
       \<and> ((\<exists>e. PullsCreate (pc_owner c) (pc_repo c) (pc_title c) (pc_head c) (pc_base c) (prBody c) (pc_draft c) (Inl e) \<in> set log) \<longrightarrow>
            \<not> (\<exists>owner repo n rs' out. RequestReviewers owner repo n rs' out \<in> set log))
       \<and> ((\<exists>pr e. PullsCreate (pc_owner c) (pc_repo c) (pc_title c) (pc_head c) (pc_base c) (prBody c) (pc_draft c) (Inr pr) \<in> set log
                 \<and> RequestReviewers (pc_owner c) (pc_repo c) (pr_number pr) rs (Inl e) \<in> set log) \<longrightarrow>
            (\<exists>r. res = Inr r \<and> \<not> success r))"
proof -
  note cases = createPullRequest_runs[OF assms]
  show ?thesis
  proof (intro conjI allI impI)
    fix i owner repo n rs' out
    assume a: "i < length log \<and> log ! i = RequestReviewers owner repo n rs' out"
    from cases a show "\<exists>j pr. j < i \<and> n = pr_number pr \<and> rs' = rs \<and>
               log ! j = PullsCreate (pc_owner c) (pc_repo c) (pc_title c) (pc_head c) (pc_base c) (prBody c) (pc_draft c) (Inr pr)"
      by (elim disjE exE conjE) (auto simp: nth_Cons split: nat.splits)
  next
    assume "\<exists>e. PullsCreate (pc_owner c) (pc_repo c) (pc_title c) (pc_head c) (pc_base c) (prBody c) (pc_draft c) (Inl e) \<in> set log"
    with cases show "\<not> (\<exists>owner repo n rs' out. RequestReviewers owner repo n rs' out \<in> set log)"
      by (elim disjE exE conjE) auto
  next
    assume "\<exists>pr e. PullsCreate (pc_owner c) (pc_repo c) (pc_title c) (pc_head c) (pc_base c) (prBody c) (pc_draft c) (Inr pr) \<in> set log
                 \<and> RequestReviewers (pc_owner c) (pc_repo c) (pr_number pr) rs (Inl e) \<in> set log"
    with cases show "\<exists>r. res = Inr r \<and> \<not> success r"
      by (elim disjE exE conjE) auto
  qed
qed

theorem createPullRequest_reviewers_after_creation_witness:
  "\<exists>r log pr e.
      createPullRequest reviewers_rejecting_github demo_pull ((), []) = (Inr r, ((), log))
    \<and> log = [PullsCreate ''acme'' ''app'' ''Add readme'' ''feature'' ''main'' (prBody demo_pull) False (Inr pr),
             RequestReviewers ''acme'' ''app'' (pr_number pr) [''octocat''] (Inl e)]
    \<and> \<not> success r"
proof -
  obtain res log where run: "createPullRequest reviewers_rejecting_github demo_pull ((), []) = (res, ((), log))"
    by (metis (full_types) old.unit.exhaust surj_pair)
  have log: "log = [PullsCreate ''acme'' ''app'' ''Add readme'' ''feature'' ''main'' (prBody demo_pull) False
                      (Inr \<lparr> pr_number = 7, pr_html_url = ''https://host/pull/7'' \<rparr>),
                    RequestReviewers ''acme'' ''app'' 7 [''octocat'']
                      (Inl (Error ''Reviews may only be requested from collaborators''))]"
    using run
    by (simp add: createPullRequest_def createPullRequest_try_def createPullRequest_catch_def run_defs
        reviewers_rejecting_github_def demo_github_def demo_pull_def)
  have rs: "pc_reviewers demo_pull = Some [''octocat'']" "[''octocat''] \<noteq> []"
    by (simp_all add: demo_pull_def)
  have "\<exists>pr e. PullsCreate (pc_owner demo_pull) (pc_repo demo_pull) (pc_title demo_pull) (pc_head demo_pull)
                  (pc_base demo_pull) (prBody demo_pull) (pc_draft demo_pull) (Inr pr) \<in> set log
              \<and> RequestReviewers (pc_owner demo_pull) (pc_repo demo_pull) (pr_number pr) [''octocat''] (Inl e) \<in> set log"
    unfolding log
    by (rule exI[of _ "\<lparr> pr_number = 7, pr_html_url = ''https://host/pull/7'' \<rparr>"],
        rule exI[of _ "Error ''Reviews may only be requested from collaborators''"])
       (simp add: demo_pull_def)
  with createPullRequest_reviewers_after_creation[OF rs run]
  obtain r where r: "res = Inr r" "\<not> success r" by blast
  show ?thesis
    apply (rule exI[of _ r], rule exI[of _ log])
    apply (rule exI[of _ "\<lparr> pr_number = 7, pr_html_url = ''https://host/pull/7'' \<rparr>"])
    apply (rule exI[of _ "Error ''Reviews may only be requested from collaborators''"])
    using run r log by simp
qed

section \<open>getRepositoryContent: which items carry content\<close>

lemma baseItem_no_content [simp]: "content (baseItem item) = None"
  by (simp add: baseItem_def)

lemma baseItem_size [simp]: "size (baseItem item) = item_size item"
  by (simp add: baseItem_def)

lemma with_content_size [simp]: "size (with_content decode item resp) = item_size item"
  by (simp add: with_content_def split: content_data.splits option.splits)

lemma returned_item_size [simp]: "size (returned_item decode item outcome) = item_size item"
  by (simp add: returned_item_def split: option.splits sum.splits)

lemma returned_item_no_fetch [simp]: "returned_item decode item None = baseItem item"
  by (simp add: returned_item_def)

text \<open>One item: a call is issued exactly for a small file, and nothing is thrown.\<close>

lemma process_item_run:
  assumes "process_item decode G c item (h, log) = (r, (h', log'))"
  shows "\<exists>outcome. r = Inr (returned_item decode item outcome)
           \<and> log' = log @ fetch_events c item outcome
           \<and> ((outcome \<noteq> None) = small_file item)"
proof (cases "small_file item")
  case False
  then have "r = Inr (returned_item decode item None) \<and> log' = log @ fetch_events c item None"
    using assms by (auto simp: process_item_def returns_def fetch_events_def)
  with False show ?thesis by blast
next
  case True
  obtain out h1 where f: "repos_getContent G (gc_owner c) (gc_repo c) (item_path item) (ref_param (gc_ref c)) h = (out, h1)"
    by (metis surj_pair)
  have "r = Inr (returned_item decode item (Some out)) \<and> log' = log @ fetch_events c item (Some out)"
    using assms True f
    by (cases out) (auto simp: process_item_def run_defs fetch_events_def returned_item_def)
  with True show ?thesis by blast
qed

lemma all_fulfilled:
  "map snd rs = map Inr xs \<Longrightarrow> first_rejection rs = None \<and> fulfilled rs = xs"
proof (induction rs arbitrary: xs)
  case Nil
  then show ?case by simp
next
  case (Cons r rs)
  then obtain x xs' where xs: "xs = x # xs'" by (cases xs) auto
  obtain t where r: "r = (t, Inr x)" using Cons.prems unfolding xs by (cases r) auto
  from Cons.prems have "map snd rs = map Inr xs'" unfolding xs by simp
  from Cons.IH[OF this] show ?case unfolding r xs by simp
qed

lemma items_settled:
  "settle_all clk (map (process_item decode G c) its) (h, log) = (rs, (h', log')) \<Longrightarrow>
   \<exists>outs. length outs = length its
     \<and> map snd rs = map Inr (map2 (returned_item decode) its outs)
     \<and> log' = log @ concat (map2 (fetch_events c) its outs)
     \<and> (\<forall>i < length its. (outs ! i \<noteq> None) = small_file (its ! i))"
proof (induction its arbitrary: h log rs h' log')
  case Nil
  then show ?case by auto
next
  case (Cons it its)
  obtain r1 h1 log1 where one: "process_item decode G c it (h, log) = (r1, (h1, log1))"
    by (metis surj_pair)
  from process_item_run[OF one] obtain o1 where o1:
    "r1 = Inr (returned_item decode it o1)" "log1 = log @ fetch_events c it o1" "(o1 \<noteq> None) = small_file it"
    by blast
  obtain rs' h2 log2 where rest: "settle_all clk (map (process_item decode G c) its) (h1, log1) = (rs', (h2, log2))"
    by (metis surj_pair)
  from Cons.IH[OF rest] obtain outs where outs: "length outs = length its"
    "map snd rs' = map Inr (map2 (returned_item decode) its outs)"
    "log2 = log1 @ concat (map2 (fetch_events c) its outs)"
    "\<forall>i < length its. (outs ! i \<noteq> None) = small_file (its ! i)"
    by blast
  have res: "rs = (clk (h1, log1), r1) # rs'" "log' = log2"
    using Cons.prems one rest by auto
  show ?case
  proof (intro exI[of _ "o1 # outs"] conjI allI impI)
    show "length (o1 # outs) = length (it # its)" using outs(1) by simp
    show "map snd rs = map Inr (map2 (returned_item decode) (it # its) (o1 # outs))"
      using res(1) o1(1) outs(2) by simp
    show "log' = log @ concat (map2 (fetch_events c) (it # its) (o1 # outs))"
      using res o1(2) outs(3) by simp
  next
    fix i assume "i < length (it # its)"
    then show "((o1 # outs) ! i \<noteq> None) = small_file ((it # its) ! i)"
      using o1(3) outs(4) by (cases i) auto
  qed
qed

lemma items_processed:
  assumes "promise_all clk (map (process_item decode G c) its) (h, log) = (r, (h', log'))"
  shows "\<exists>outs. length outs = length its
     \<and> r = Inr (map2 (returned_item decode) its outs)
     \<and> log' = log @ concat (map2 (fetch_events c) its outs)
     \<and> (\<forall>i < length its. (outs ! i \<noteq> None) = small_file (its ! i))"
proof -
  obtain rs h1 log1 where st: "settle_all clk (map (process_item decode G c) its) (h, log) = (rs, (h1, log1))"
    by (metis surj_pair)
  from items_settled[OF st] obtain outs where outs: "length outs = length its"
    "map snd rs = map Inr (map2 (returned_item decode) its outs)"
    "log1 = log @ concat (map2 (fetch_events c) its outs)"
    "\<forall>i < length its. (outs ! i \<noteq> None) = small_file (its ! i)"
    by blast
  from all_fulfilled[OF outs(2)] promise_all_run[OF st] assms
  have "r = Inr (map2 (returned_item decode) its outs)" "log' = log1" by simp_all
  with outs show ?thesis by blast
qed

text \<open>
  C4 (as amended). In every result of \<open>getRepositoryContent\<close> no item of size at
  least 100000 carries content. When the listing call succeeds, the tool returns
  \<open>success = true\<close> with one item per listed entry, and the rest of the log is the
  fetches in the order of the entries: a content fetch is issued for an entry exactly
  when it is a file whose size is given, not zero and below 100000; an entry whose fetch
  failed is returned as listed, without content.
\<close>

theorem getRepositoryContent_listing:
  assumes "getRepositoryContent decode G c (h, []) = (res, (h', log))"
  shows "\<exists>r. res = Inr r
       \<and> (\<forall>it n. it \<in> set (items r) \<and> size it = Some n \<and> 100000 \<le> n \<longrightarrow> content it = None)
       \<and> (\<forall>data. log \<noteq> [] \<and> hd log = GetContent (gc_owner c) (gc_repo c) (gc_path c) (ref_param (gc_ref c)) (Inr data) \<longrightarrow>
            success r
          \<and> (\<exists>outs. length outs = length (listed data)
               \<and> items r = map2 (returned_item decode) (listed data) outs
               \<and> tl log = concat (map2 (fetch_events c) (listed data) outs)
               \<and> (\<forall>i < length (listed data).
                     (outs ! i \<noteq> None) =
                       (item_type (listed data ! i) = ''file''
                        \<and> (\<exists>n. item_size (listed data ! i) = Some n \<and> n \<noteq> 0 \<and> n < 100000))
                   \<and> (\<forall>e. outs ! i = Some (Inl e) \<longrightarrow> items r ! i = baseItem (listed data ! i)))))"
proof -
  let ?first = "GetContent (gc_owner c) (gc_repo c) (gc_path c) (ref_param (gc_ref c))"
  obtain u h0 where cl: "getUncachableGitHubClient G h = (u, h0)" by (metis surj_pair)
  show ?thesis
  proof (cases u)
    case (Inl e)
    then have "res = Inr \<lparr> success = False, message = ''Failed to get repository content: '' @ errorMessage e, items = [] \<rparr>"
      and "log = []"
      using assms cl
      by (auto simp: getRepositoryContent_def getRepositoryContent_try_def getRepositoryContent_catch_def run_defs)
    then show ?thesis by simp
  next
    case (Inr u')
    obtain d h1 where ls: "repos_getContent G (gc_owner c) (gc_repo c) (gc_path c) (ref_param (gc_ref c)) h0 = (d, h1)"
      by (metis surj_pair)
    show ?thesis
    proof (cases d)
      case (Inl e)
      then have "res = Inr \<lparr> success = False, message = ''Failed to get repository content: '' @ errorMessage e, items = [] \<rparr>"
        and "log = [?first (Inl e)]"
        using assms cl ls Inr
        by (auto simp: getRepositoryContent_def getRepositoryContent_try_def getRepositoryContent_catch_def run_defs)
      then show ?thesis by simp
    next
      case (Inr data)
      obtain rs h2 log2 where all: "promise_all (clock G) (map (process_item decode G c) (listed data)) (h1, [?first (Inr data)]) = (rs, (h2, log2))"
        by (metis surj_pair)
      from items_processed[OF all] obtain outs where outs: "length outs = length (listed data)"
        "rs = Inr (map2 (returned_item decode) (listed data) outs)"
        "log2 = [?first (Inr data)] @ concat (map2 (fetch_events c) (listed data) outs)"
        "\<forall>i < length (listed data). (outs ! i \<noteq> None) = small_file (listed data ! i)"
        by blast
      let ?items = "map2 (returned_item decode) (listed data) outs"
      have res: "res = Inr \<lparr> success = True,
                   message = ''Retrieved '' @ decimal (length ?items) @ '' items from ''
                         @ (if gc_path c = [] then ''root'' else gc_path c),
                   items = ?items \<rparr>" and log: "log = log2"
        using assms cl ls \<open>u = Inr u'\<close> Inr all outs(2)
        by (auto simp: getRepositoryContent_def getRepositoryContent_try_def run_defs)
      have big: "content it = None" if "it \<in> set ?items" "size it = Some n" "100000 \<le> n" for it n
      proof -
        from that(1) obtain i where i: "i < length (listed data)" "it = returned_item decode (listed data ! i) (outs ! i)"
          using outs(1) by (auto simp: set_zip in_set_conv_nth)
        then have "item_size (listed data ! i) = Some n" using that(2) by simp
        then have "\<not> small_file (listed data ! i)" using that(3) by (simp add: small_file_def)
        then have "outs ! i = None" using outs(4) i(1) by auto
        then show ?thesis using i(2) by simp
      qed
      have each: "(outs ! i \<noteq> None) =
                       (item_type (listed data ! i) = ''file''
                        \<and> (\<exists>n. item_size (listed data ! i) = Some n \<and> n \<noteq> 0 \<and> n < 100000))
                   \<and> (\<forall>e. outs ! i = Some (Inl e) \<longrightarrow> ?items ! i = baseItem (listed data ! i))"
        if "i < length (listed data)" for i
        using outs(4) outs(1) that by (auto simp: small_file_def returned_item_def split: option.splits)
      let ?r = "\<lparr> success = True,
                   message = ''Retrieved '' @ decimal (length ?items) @ '' items from ''
                         @ (if gc_path c = [] then ''root'' else gc_path c),
                   items = ?items \<rparr>"
      have shape: "\<exists>outs'. length outs' = length (listed data)
               \<and> items ?r = map2 (returned_item decode) (listed data) outs'
               \<and> tl log = concat (map2 (fetch_events c) (listed data) outs')
               \<and> (\<forall>i < length (listed data).
                     (outs' ! i \<noteq> None) =
                       (item_type (listed data ! i) = ''file''
                        \<and> (\<exists>n. item_size (listed data ! i) = Some n \<and> n \<noteq> 0 \<and> n < 100000))
                   \<and> (\<forall>e. outs' ! i = Some (Inl e) \<longrightarrow> items ?r ! i = baseItem (listed data ! i)))"
        apply (rule exI[of _ outs])
        using outs(1,3) log each by simp
      have same: "data' = data" if "log \<noteq> [] \<and> hd log = ?first (Inr data')" for data'
        using that log outs(3) by simp
      show ?thesis
      proof (intro exI[of _ ?r] conjI allI impI)
        show "res = Inr ?r" by (rule res)
      next
        fix it n
        assume "it \<in> set (items ?r) \<and> size it = Some n \<and> 100000 \<le> n"
        then show "content it = None" using big[of it n] by simp
      next
        fix data'
        assume "log \<noteq> [] \<and> hd log = ?first (Inr data')"
        then show "success ?r" by simp
      next
        fix data'
        assume "log \<noteq> [] \<and> hd log = ?first (Inr data')"
        then have "data' = data" by (rule same)
        then show "\<exists>outs. length outs = length (listed data')
               \<and> items ?r = map2 (returned_item decode) (listed data') outs
               \<and> tl log = concat (map2 (fetch_events c) (listed data') outs)
               \<and> (\<forall>i < length (listed data').
                     (outs ! i \<noteq> None) =
                       (item_type (listed data' ! i) = ''file''
                        \<and> (\<exists>n. item_size (listed data' ! i) = Some n \<and> n \<noteq> 0 \<and> n < 100000))
                   \<and> (\<forall>e. outs ! i = Some (Inl e) \<longrightarrow> items ?r ! i = baseItem (listed data' ! i)))"
          using shape by simp
      qed
    qed
  qed
qed

lemmas content_defs = getRepositoryContent_def getRepositoryContent_try_def getRepositoryContent_catch_def
  process_item_def with_content_def small_file_def listed_def ref_param_def demo_github_def
  demo_listing_def promise_all_def clock_def

theorem getRepositoryContent_listing_witness:
  "\<exists>r log.
      getRepositoryContent (\<lambda>t. t) fetch_failing_github demo_listing ((), []) = (Inr r, ((), log))
    \<and> hd log = GetContent ''acme'' ''app'' [] None (Inr (Listing [small_readme, large_dump]))
    \<and> tl log = [GetContent ''acme'' ''app'' ''README.md'' None (Inl (Error ''Server Error''))]
    \<and> success r
    \<and> items r = [baseItem small_readme, baseItem large_dump]"
proof -
  obtain res log where run:
    "getRepositoryContent (\<lambda>t. t) fetch_failing_github demo_listing ((), []) = (res, ((), log))"
    by (metis (full_types) old.unit.exhaust surj_pair)
  have ev: "log = [GetContent ''acme'' ''app'' [] None (Inr (Listing [small_readme, large_dump])),
                   GetContent ''acme'' ''app'' ''README.md'' None (Inl (Error ''Server Error''))]"
    "map_sum id items res = Inr [baseItem small_readme, baseItem large_dump]"
    using run
    by (auto simp: content_defs run_defs fetch_failing_github_def small_readme_def large_dump_def)
  from getRepositoryContent_listing[OF run] obtain r where r: "res = Inr r"
    and listing: "\<forall>data. log \<noteq> [] \<and> hd log = GetContent (gc_owner demo_listing) (gc_repo demo_listing)
                     (gc_path demo_listing) (ref_param (gc_ref demo_listing)) (Inr data) \<longrightarrow> success r"
    by blast
  have "log \<noteq> [] \<and> hd log = GetContent (gc_owner demo_listing) (gc_repo demo_listing)
                     (gc_path demo_listing) (ref_param (gc_ref demo_listing)) (Inr (Listing [small_readme, large_dump]))"
    unfolding ev by (simp add: demo_listing_def ref_param_def)
  with listing have "success r" by blast
  then show ?thesis
    using run r ev by auto
qed

text \<open>
  The claim as stated does not hold for a file of size 0: it is below the threshold, and
  no content fetch is issued for it. The log of listing a directory that holds one empty
  file is the listing call alone.
\<close>

theorem getRepositoryContent_empty_file_counterexample:
  "snd (snd (getRepositoryContent (\<lambda>t. t) gitkeep_github demo_listing ((), []))) =
     [GetContent ''acme'' ''app'' [] None (Inr (Listing [gitkeep]))]
   \<and> map_sum id items (fst (getRepositoryContent (\<lambda>t. t) gitkeep_github demo_listing ((), []))) =
       Inr [\<lparr> name = ''.gitkeep'', path = ''.gitkeep'', type = ''file'', size = Some 0,
               item_hash = ''e69de29'', content = None \<rparr>]"
  by (simp add: content_defs run_defs gitkeep_github_def gitkeep_def baseItem_def)

section \<open>readKanbanBoard: what the returned tasks are\<close>

lemma readKanbanBoard_ignores_context:
  "readKanbanBoard notion c = readKanbanBoard notion c'"
  by (simp add: readKanbanBoard_def readKanbanBoard_try_def)

lemma readKanbanBoard_tasks:
  assumes "readKanbanBoard notion c (n, []) = (Inr r, (n', log))"
  shows "\<exists>pages. log = [Search searchParams (Inr pages)] \<and> tasks r = map extract_task pages"
  using assms
  by (auto simp: readKanbanBoard_def readKanbanBoard_try_def readKanbanBoard_catch_def run_defs
      split: prod.splits sum.splits)

lemmas notion_demo_defs = demo_notion_def demo_board_def todo_page_def done_page_def bare_page_def
  status_property_def title_property_def

lemmas extract_defs = extract_task_def extract_title_def extract_status_def extract_description_def
  extract_assignee_def extract_priority_def or_else_def

text \<open>
  C3. The tool is asked for the tasks of the board \<open>board-1\<close> with the status
  \<open>To Do\<close>. Its one call to the host is the search for all pages, and it returns a task
  for every page found: here also the task with status \<open>Done\<close> whose page belongs to
  the database \<open>other-db\<close>.
\<close>

theorem readKanbanBoard_returns_unfiltered:
  "readKanbanBoard demo_notion demo_board ((), []) =
     (Inr \<lparr> tasks = [extract_task todo_page, extract_task done_page] \<rparr>,
      ((), [Search \<lparr> filter_value = ''page'', filter_property = ''object'', page_size = 100 \<rparr>
              (Inr [todo_page, done_page])]))
   \<and> databaseId demo_board = ''board-1'' \<and> statusFilter demo_board = Some ''To Do''
   \<and> task_id (extract_task done_page) = ''page-2''
   \<and> status (extract_task done_page) = ''Done''
   \<and> page_parent_database done_page = Some ''other-db''"
  by (simp add: readKanbanBoard_def readKanbanBoard_try_def readKanbanBoard_catch_def run_defs
      searchParams_def extract_defs notion_demo_defs)

section \<open>Extraction of title and status\<close>

text \<open>
  C6. When a page has a title both under \<open>Title\<close> and under \<open>Name\<close>, the task's title
  is the first text of the \<open>Title\<close> property; when none of \<open>Title\<close>, \<open>Name\<close>,
  \<open>title\<close>, \<open>name\<close> is a property of the page, the title is \<open>Untitled\<close>; when neither
  \<open>Status\<close> nor \<open>status\<close> is, the status is \<open>Unknown\<close>.
\<close>

theorem extract_task_alias_priority:
  "(map_of (page_properties page) ''Title'' = Some pt \<and> prop_title pt = Some (t # ts)
      \<and> map_of (page_properties page) ''Name'' = Some pn \<and> prop_title pn = Some (u # us)
      \<longrightarrow> title (extract_task page) = t)
   \<and> (map_of (page_properties page) ''Title'' = None \<and> map_of (page_properties page) ''Name'' = None
      \<and> map_of (page_properties page) ''title'' = None \<and> map_of (page_properties page) ''name'' = None
      \<longrightarrow> title (extract_task page) = ''Untitled'')
   \<and> (map_of (page_properties page) ''Status'' = None \<and> map_of (page_properties page) ''status'' = None
      \<longrightarrow> status (extract_task page) = ''Unknown'')"
  by (simp add: extract_defs)

theorem extract_task_alias_priority_witness:
  "title (extract_task todo_page) = ''Add dark mode''
   \<and> title (extract_task bare_page) = ''Untitled''
   \<and> status (extract_task bare_page) = ''Unknown''"
proof -
  have a: "map_of (page_properties todo_page) ''Title'' = Some (title_property ''Add dark mode'')
      \<and> prop_title (title_property ''Add dark mode'') = Some [''Add dark mode'']
      \<and> map_of (page_properties todo_page) ''Name'' = Some (title_property ''Dark mode (old name)'')
      \<and> prop_title (title_property ''Dark mode (old name)'') = Some [''Dark mode (old name)'']"
    by (simp add: todo_page_def title_property_def)
  have b: "map_of (page_properties bare_page) ''Title'' = None \<and> map_of (page_properties bare_page) ''Name'' = None
      \<and> map_of (page_properties bare_page) ''title'' = None \<and> map_of (page_properties bare_page) ''name'' = None"
    "map_of (page_properties bare_page) ''Status'' = None \<and> map_of (page_properties bare_page) ''status'' = None"
    by (simp_all add: bare_page_def)
  from a extract_task_alias_priority[of todo_page "title_property ''Add dark mode''" "''Add dark mode''" "[]"
      "title_property ''Dark mode (old name)''" "''Dark mode (old name)''" "[]"]
  have "title (extract_task todo_page) = ''Add dark mode''" by blast
  moreover from b extract_task_alias_priority[of bare_page]
  have "title (extract_task bare_page) = ''Untitled''" "status (extract_task bare_page) = ''Unknown''"
    by blast+
  ultimately show ?thesis by simp
qed

section \<open>What the tools do with an error\<close>

text \<open>A tool is its \<open>try\<close> block under its \<open>catch\<close> block: an error raised in the first goes to the second.\<close>

lemma try_catch_raised:
  "body s = (Inl e, s') \<Longrightarrow> try_catch body handler s = handler e s'"
  by (simp add: try_catch_def)

lemma try_catch_returned:
  "body s = (Inr x, s') \<Longrightarrow> try_catch body handler s = (Inr x, s')"
  by (simp add: try_catch_def)



section \<open>validateCodeQuality: the score\<close>

lemma clamp_in_range: "0 \<le> max 0 (min 100 (x::int)) \<and> max 0 (min 100 x) \<le> 100"
  by simp

lemma validateCodeQuality_try_score:
  "\<exists>r x. validateCodeQuality_try c s = (Inr r, s) \<and> qualityScore r = max 0 (min 100 x)"
  unfolding validateCodeQuality_try_def Let_def returns_def
  by (intro exI conjI) (rule refl, simp only: quality_report.select_convs)

lemma validateCodeQuality_copy_try_score:
  "\<exists>r x. validateCodeQuality_copy_try c s = (Inr r, s) \<and> qualityScore r = max 0 (min 100 x)"
  unfolding validateCodeQuality_copy_try_def Let_def returns_def
  by (intro exI conjI) (rule refl, simp only: quality_report.select_convs)



section \<open>getAccessToken: the cache\<close>

lemma getAccessToken_cached:
  assumes "connectionSettings st = Some conn" and "settings conn = Some s"
    and "expires_at s = Some e" and "e \<noteq> []" and "date_getTime P e = Some t"
    and "date_now P (world st) < t"
  shows "getAccessToken P st = (Inr (access_token s), st)"
  using assms by (simp add: getAccessToken_def truthy_def)

lemma getAccessToken_expired:
  assumes "connectionSettings st = Some conn" and "settings conn = Some s"
    and "expires_at s = Some e" and "e \<noteq> []" and "date_getTime P e = Some t"
    and "t \<le> date_now P (world st)"
  shows "getAccessToken P st = refresh P st"
  using assms by (simp add: getAccessToken_def truthy_def)

lemma refresh_fetches:
  assumes "xReplitToken (env P) = Some header"
  shows "\<exists>out. fetches (snd (refresh P st)) = fetches st @ [Fetch (connection_url (env P)) header out]"
  using assms
  by (auto simp: refresh_def Let_def split: prod.splits sum.splits option.splits)

lemma refresh_without_identity:
  assumes "xReplitToken (env P) = None"
  shows "refresh P st = (Inl (Error ''X_REPLIT_TOKEN not found for repl/depl''), st)"
  using assms by (simp add: refresh_def)

text \<open>
  C5. The connector sends the token under the OAuth credentials, with an expiry in
  the future. The first call fetches and returns the token. The second call, before the
  expiry, issues no fetch and returns \<open>undefined\<close>: the cached branch reads only
  \<open>settings.access_token\<close>, where the fresh branch falls back to the OAuth credentials.
\<close>

theorem getAccessToken_cached_oauth_token_lost:
  "fst (getAccessToken demo_platform empty_cache) = Inr (Some ''gho_abc'')
   \<and> fetches (snd (getAccessToken demo_platform empty_cache)) =
       [Fetch ''https://connectors.example/api/v2/connection?include_secrets=true&connector_names=github''
          ''repl identity'' (Inr (Some oauth_only))]
   \<and> getAccessToken demo_platform (snd (getAccessToken demo_platform empty_cache)) =
       (Inr None, snd (getAccessToken demo_platform empty_cache))"
  by (simp add: getAccessToken_def refresh_def demo_platform_def empty_cache_def oauth_only_def
      xReplitToken_def connection_url_def truthy_def)

section \<open>The two patterns of the workflow\<close>

subsection \<open>The matcher on literals and quantifiers\<close>

lemma canonicalize_digit: "is_digit x \<Longrightarrow> canonicalize x = of_char x"
  by (simp add: is_digit_def canonicalize_def Let_def)

lemma canonicalize_space: "is_space x \<Longrightarrow> canonicalize x = of_char x"
  by (auto simp: is_space_def canonicalize_def Let_def)

lemma digit_not_space: "is_digit x \<Longrightarrow> \<not> is_space x"
  by (auto simp: is_digit_def is_space_def Let_def)

lemma canon_range: "canonicalize x < 97 \<or> 122 < canonicalize x"
  by (auto simp: canonicalize_def Let_def)

text \<open>A character that matches a letter is neither a digit nor white space nor a hash.\<close>

lemma letter_match:
  assumes "canonicalize x = n" and "65 \<le> n" and "n \<le> 90"
  shows "\<not> is_digit x" and "\<not> is_space x" and "canonicalize x \<noteq> 35"
  using assms by (auto simp: canonicalize_def is_digit_def is_space_def Let_def split: if_splits)

lemma bt_lit:
  "bt (lit w) s cs k = (if ci_prefix w s then k (drop (length w) s) cs else None)"
proof (induction w arbitrary: s)
  case Nil
  then show ?case by (simp add: ci_prefix_def ci_eq_def)
next
  case (Cons c w)
  show ?case
  proof (cases s)
    case Nil
    then show ?thesis by (simp add: ci_prefix_def)
  next
    case (Cons x xs)
    then show ?thesis
      using Cons.IH[of xs] by (auto simp: ci_prefix_def ci_eq_def)
  qed
qed

lemma bt_star_skip:
  assumes "\<And>x xs. cls_matches c x \<Longrightarrow> k (x # xs) cs = None"
  shows "bt (Star c) s cs k = k (dropWhile (cls_matches c) s) cs"
proof (induction s)
  case Nil
  then show ?case by simp
next
  case (Cons x xs)
  then show ?case using assms[of x xs] by (auto split: option.splits)
qed

lemma bt_star_total:
  assumes "\<And>s'. k s' cs \<noteq> None"
  shows "bt (Star c) s cs k = k (dropWhile (cls_matches c) s) cs"
proof (induction s)
  case Nil
  then show ?case by simp
next
  case (Cons x xs)
  then show ?case using assms[of "dropWhile (cls_matches c) xs"] by (auto split: option.splits)
qed

lemma bt_opt_skip:
  assumes "\<And>x xs. cls_matches c x \<Longrightarrow> k (x # xs) cs = None"
  shows "bt (Opt c) s cs k = k (skip_opt c s) cs"
proof (cases s)
  case Nil
  then show ?thesis by (simp add: skip_opt_def)
next
  case (Cons x xs)
  then show ?thesis using assms[of x xs] by (auto simp: skip_opt_def split: option.splits)
qed


lemma take_length_dropWhile: "take (length s - length (dropWhile P s)) s = takeWhile P s"
proof -
  have "length s - length (dropWhile P s) = length (takeWhile P s)"
    by (metis add_diff_cancel_right' length_append takeWhile_dropWhile_id)
  then show ?thesis
    by (metis append_eq_conv_conj takeWhile_dropWhile_id)
qed

text \<open>A capture group around a run of digits that ends the pattern.\<close>

lemma bt_digits_last:
  assumes "\<And>s' cs'. k s' cs' \<noteq> None"
  shows "bt (Group (Plus Digit)) s cs k =
     (if s \<noteq> [] \<and> is_digit (hd s) then k (dropWhile is_digit s) (cs @ [takeWhile is_digit s]) else None)"
proof (cases s)
  case Nil
  then show ?thesis by simp
next
  case (Cons d ds)
  show ?thesis
  proof (cases "is_digit d")
    case False
    then show ?thesis using Cons by simp
  next
    case True
    let ?k = "\<lambda>s' cs'. k s' (cs' @ [take (length s - length s') s])"
    have dg: "cls_matches Digit = is_digit" by (rule ext) simp
    have "bt (Star Digit) ds cs ?k = ?k (dropWhile (cls_matches Digit) ds) cs"
      by (rule bt_star_total) (simp add: assms)
    also have "dropWhile (cls_matches Digit) ds = dropWhile is_digit s"
      using Cons True by (simp add: dg)
    also have "?k (dropWhile is_digit s) cs = k (dropWhile is_digit s) (cs @ [takeWhile is_digit s])"
      by (simp only: take_length_dropWhile)
    finally have "bt (Star Digit) ds cs ?k = k (dropWhile is_digit s) (cs @ [takeWhile is_digit s])" .
    moreover have "bt (Group (Plus Digit)) s cs k = bt (Star Digit) ds cs ?k"
      using Cons True by simp
    ultimately show ?thesis using Cons True by simp
  qed
qed

lemma match_here_pull_request:
  "match_here pullRequestRegex s =
     (case pull_request_rest s of
        None \<Rightarrow> None
      | Some rest \<Rightarrow> Some (length s - length rest,
          [takeWhile is_digit (skip_opt (Ch CHR ''#'') (dropWhile is_space (skip_opt (Ch CHR ''s'') (drop 12 s))))]))"
proof -
  define k0 where "k0 = (\<lambda>(s' :: string) (cs :: string list). Some (length s - length s', cs))"
  define kD where "kD = (\<lambda>s4 cs4. bt (Group (Plus Digit)) s4 cs4 k0)"
  define kH where "kH = (\<lambda>s3 cs3. bt (Opt (Ch CHR ''#'')) s3 cs3 kD)"
  define kW where "kW = (\<lambda>s2 cs2. bt (Star Space) s2 cs2 kH)"
  define kS where "kS = (\<lambda>s1 cs1. bt (Opt (Ch CHR ''s'')) s1 cs1 kW)"
  have sp: "cls_matches Space = is_space" by (rule ext) simp
  have kD: "kD s4 cs4 = (if s4 \<noteq> [] \<and> is_digit (hd s4)
                          then Some (length s - length (dropWhile is_digit s4), cs4 @ [takeWhile is_digit s4]) else None)"
    for s4 cs4
    unfolding kD_def k0_def by (rule bt_digits_last) simp
  have kD_none: "kD (x # xs) cs = None" if "\<not> is_digit x" for x xs cs
    using that by (simp add: kD)
  have kH: "kH s3 cs3 = kD (skip_opt (Ch CHR ''#'') s3) cs3" for s3 cs3
    unfolding kH_def
  proof (rule bt_opt_skip)
    fix x xs assume "cls_matches (Ch CHR ''#'') x"
    then have "\<not> is_digit x"
      by (auto simp: canonicalize_def is_digit_def Let_def split: if_splits)
    then show "kD (x # xs) cs3 = None" by (rule kD_none)
  qed
  have kH_none: "kH (x # xs) cs = None" if "\<not> is_digit x" "\<not> cls_matches (Ch CHR ''#'') x" for x xs cs
    using that unfolding kH by (simp add: skip_opt_def kD)
  have kW: "kW s2 cs2 = kH (dropWhile is_space s2) cs2" for s2 cs2
  proof -
    have "bt (Star Space) s2 cs2 kH = kH (dropWhile (cls_matches Space) s2) cs2"
    proof (rule bt_star_skip)
      fix x xs assume "cls_matches Space x"
      then have "\<not> is_digit x" "\<not> cls_matches (Ch CHR ''#'') x"
        by (auto simp: canonicalize_def is_digit_def is_space_def Let_def split: if_splits)
      then show "kH (x # xs) cs2 = None" by (rule kH_none)
    qed
    then show ?thesis by (simp add: sp kW_def)
  qed
  have kS: "kS s1 cs1 = kW (skip_opt (Ch CHR ''s'') s1) cs1" for s1 cs1
    unfolding kS_def
  proof (rule bt_opt_skip)
    fix x xs assume "cls_matches (Ch CHR ''s'') x"
    then have x: "\<not> is_digit x" "\<not> cls_matches (Ch CHR ''#'') x" "\<not> is_space x"
      by (auto simp: canonicalize_def is_digit_def is_space_def Let_def split: if_splits)
    then have "kW (x # xs) cs1 = kH (x # xs) cs1" unfolding kW by simp
    then show "kW (x # xs) cs1 = None" using kH_none[OF x(1,2)] by simp
  qed
  have "match_here pullRequestRegex s = bt (lit ''pull request'') s [] kS"
    by (simp add: match_here_def pullRequestRegex_def kS_def kW_def kH_def kD_def k0_def)
  also have "\<dots> = (if ci_prefix ''pull request'' s then kS (drop (length ''pull request'') s) [] else None)"
    by (simp only: bt_lit)
  also have "length ''pull request'' = 12" by simp
  finally have "match_here pullRequestRegex s = (if ci_prefix ''pull request'' s then kS (drop 12 s) [] else None)" .
  then show ?thesis
    by (simp add: kS kW kH kD pull_request_rest_def Let_def)
qed


subsection \<open>Characters\<close>

lemma canon_digit: "is_digit x \<Longrightarrow> 48 \<le> canonicalize x \<and> canonicalize x \<le> 57"
  by (simp add: is_digit_def canonicalize_def Let_def)

lemma canon_space: "is_space x \<Longrightarrow> canonicalize x \<in> {9, 10, 11, 12, 13, 32, 160}"
  by (auto simp: is_space_def canonicalize_def Let_def)

lemma canon_hash: "canonicalize x = 35 \<longleftrightarrow> x = CHR ''#''"
proof
  assume "canonicalize x = 35"
  then have "of_char x = (35::nat)"
    by (auto simp: canonicalize_def Let_def split: if_splits)
  then have "of_char x = (of_char CHR ''#'' :: nat)" by simp
  then show "x = CHR ''#''" by (simp only: of_char_eq_iff)
next
  assume "x = CHR ''#''"
  then show "canonicalize x = 35" by (simp add: canonicalize_def)
qed

lemma canon_literals:
  "canonicalize CHR ''s'' = 83" "canonicalize CHR ''#'' = 35" "canonicalize CHR ''t'' = 84"
  "canonicalize CHR ''p'' = 80" "canonicalize CHR ''c'' = 67" "canonicalize CHR ''h'' = 72"
  by (simp_all add: canonicalize_def)

subsection \<open>Scans\<close>

lemma skip_opt_keep: "s = [] \<or> \<not> cls_matches c (hd s) \<Longrightarrow> skip_opt c s = s"
  by (cases s) (auto simp: skip_opt_def)

lemma skip_opt_take: "cls_matches c x \<Longrightarrow> skip_opt c (x # xs) = xs"
  by (simp add: skip_opt_def)

lemma skip_opt_split:
  "\<exists>p. s = p @ skip_opt c s \<and> (p = [] \<or> (\<exists>x. p = [x] \<and> cls_matches c x))"
  by (cases s) (auto simp: skip_opt_def)

lemma dropWhile_keep: "s = [] \<or> \<not> P (hd s) \<Longrightarrow> dropWhile P s = s"
  by (cases s) auto

lemma dropWhile_all: "list_all P xs \<Longrightarrow> dropWhile P (xs @ ys) = dropWhile P ys"
  by (induction xs) auto

lemma takeWhile_all: "list_all P xs \<Longrightarrow> ys = [] \<or> \<not> P (hd ys) \<Longrightarrow> takeWhile P (xs @ ys) = xs"
  by (induction xs) (auto simp: takeWhile_eq_Nil_iff)

lemma ci_eq_length: "ci_eq u v \<Longrightarrow> length u = length v"
  unfolding ci_eq_def by (rule map_eq_imp_length_eq)

lemma ci_prefix_append: "ci_eq w v \<Longrightarrow> ci_prefix v (w @ r)"
  by (simp add: ci_prefix_def ci_eq_length)

lemma ci_prefix_split: "ci_prefix v s \<Longrightarrow> \<exists>w. s = w @ drop (length v) s \<and> ci_eq w v"
  by (metis append_take_drop_id ci_prefix_def)

lemma ci_eq_single: "ci_eq p [c] \<longleftrightarrow> (\<exists>x. p = [x] \<and> canonicalize x = canonicalize c)"
  by (cases p) (auto simp: ci_eq_def)

subsection \<open>A pull-request mention, read and scanned\<close>

lemma reads_pull_request_scan:
  assumes "reads_pull_request s m"
  shows "\<exists>rest. pull_request_rest s = Some rest \<and> s = m @ rest"
proof -
  from assms obtain w p ws h ds rest where
    s: "s = m @ rest" and m: "m = w @ p @ ws @ h @ ds" and w: "ci_eq w ''pull request''"
    and p: "p = [] \<or> ci_eq p ''s''" and ws: "list_all is_space ws" and h: "h = [] \<or> h = ''#''"
    and ds: "ds \<noteq> []" "list_all is_digit ds" and rest: "rest = [] \<or> \<not> is_digit (hd rest)"
    unfolding reads_pull_request_def by blast
  have lw: "length w = 12" using ci_eq_length[OF w] by simp
  have pre: "ci_prefix ''pull request'' s"
    unfolding s m using ci_prefix_append[OF w] by simp
  have d12: "drop 12 s = p @ ws @ h @ ds @ rest" unfolding s m using lw by simp
  obtain d ds' where dd: "ds = d # ds'" "is_digit d" using ds by (cases ds) auto
  have hd_h: "h @ ds @ rest \<noteq> [] \<and> \<not> is_space (hd (h @ ds @ rest))
              \<and> \<not> cls_matches (Ch CHR ''s'') (hd (h @ ds @ rest))"
    using h dd canon_digit[OF dd(2)]
    by (auto simp: is_space_def canonicalize_def is_digit_def Let_def)
  have hd_ws: "\<not> cls_matches (Ch CHR ''s'') (hd (ws @ h @ ds @ rest))"
  proof (cases ws)
    case Nil
    then show ?thesis using hd_h by simp
  next
    case (Cons y ys)
    then have "is_space y" using ws by simp
    then show ?thesis using Cons canon_space[of y] by (auto simp: canon_literals)
  qed
  have s2: "skip_opt (Ch CHR ''s'') (drop 12 s) = ws @ h @ ds @ rest"
  proof (cases "p = []")
    case True
    then show ?thesis unfolding d12 using hd_ws by (simp add: skip_opt_keep)
  next
    case False
    then obtain x where "p = [x]" "canonicalize x = canonicalize CHR ''s''"
      using p by (auto simp: ci_eq_single)
    then show ?thesis unfolding d12 by (simp add: skip_opt_take)
  qed
  have s3: "dropWhile is_space (ws @ h @ ds @ rest) = h @ ds @ rest"
    using ws hd_h by (simp add: dropWhile_all dropWhile_keep)
  have s4: "skip_opt (Ch CHR ''#'') (h @ ds @ rest) = ds @ rest"
  proof (cases "h = []")
    case True
    have "\<not> cls_matches (Ch CHR ''#'') d"
      using canon_digit[OF dd(2)] by (auto simp: canon_literals)
    then show ?thesis using True dd by (simp add: skip_opt_keep)
  next
    case False
    then have "h = ''#''" using h by simp
    then show ?thesis by (simp add: skip_opt_take)
  qed
  have s5: "dropWhile is_digit (ds @ rest) = rest"
    using ds(2) rest by (simp add: dropWhile_all dropWhile_keep)
  have nonempty: "ds @ rest \<noteq> [] \<and> is_digit (hd (ds @ rest))" using dd by simp
  have "pull_request_rest s = Some rest"
    unfolding pull_request_rest_def Let_def s2 s3 s4 s5 using pre nonempty by simp
  then show ?thesis using s by blast
qed

lemma scan_reads_pull_request:
  assumes "pull_request_rest s = Some rest"
  shows "\<exists>m. s = m @ rest \<and> reads_pull_request s m"
proof -
  let ?s1 = "drop 12 s"
  let ?s2 = "skip_opt (Ch CHR ''s'') ?s1"
  let ?s3 = "dropWhile is_space ?s2"
  let ?s4 = "skip_opt (Ch CHR ''#'') ?s3"
  from assms have pre: "ci_prefix ''pull request'' s" and s4: "?s4 \<noteq> []" "is_digit (hd ?s4)"
    and rest: "rest = dropWhile is_digit ?s4"
    by (auto simp: pull_request_rest_def Let_def split: if_splits)
  have len12: "length ''pull request'' = 12" by simp
  from ci_prefix_split[OF pre] obtain w where w: "s = w @ ?s1" "ci_eq w ''pull request''"
    unfolding len12 by blast
  from skip_opt_split[of ?s1 "Ch CHR ''s''"] obtain p where
    p: "?s1 = p @ ?s2" "p = [] \<or> (\<exists>x. p = [x] \<and> cls_matches (Ch CHR ''s'') x)" by blast
  have ws: "?s2 = takeWhile is_space ?s2 @ ?s3" by simp
  from skip_opt_split[of ?s3 "Ch CHR ''#''"] obtain h where
    h: "?s3 = h @ ?s4" "h = [] \<or> (\<exists>x. h = [x] \<and> cls_matches (Ch CHR ''#'') x)" by blast
  have dsr: "?s4 = takeWhile is_digit ?s4 @ rest" unfolding rest by simp
  let ?m = "w @ p @ takeWhile is_space ?s2 @ h @ takeWhile is_digit ?s4"
  have whole: "s = ?m @ rest"
    using w(1) p(1) ws h(1) dsr by (metis append.assoc)
  have "reads_pull_request s ?m"
    unfolding reads_pull_request_def
  proof (intro exI conjI)
    show "s = ?m @ rest" by (rule whole)
    show "?m = w @ p @ takeWhile is_space ?s2 @ h @ takeWhile is_digit ?s4" by simp
    show "ci_eq w ''pull request''" by (rule w(2))
    show "p = [] \<or> ci_eq p ''s''" using p(2) by (auto simp: ci_eq_single)
    show "list_all is_space (takeWhile is_space ?s2)"
      by (simp add: list_all_iff) (meson set_takeWhileD)
    show "h = [] \<or> h = ''#''" using h(2) by (auto simp: canon_literals canon_hash)
    show "takeWhile is_digit ?s4 \<noteq> []" using s4 by (cases ?s4) auto
    show "list_all is_digit (takeWhile is_digit ?s4)"
      by (simp add: list_all_iff) (meson set_takeWhileD)
    show "rest = [] \<or> \<not> is_digit (hd rest)"
      unfolding rest by (metis hd_dropWhile)
  qed
  with whole show ?thesis by blast
qed


lemma reads_pull_request_iff:
  "reads_pull_request s m \<longleftrightarrow> (\<exists>rest. pull_request_rest s = Some rest \<and> s = m @ rest)"
proof
  assume "reads_pull_request s m"
  then show "\<exists>rest. pull_request_rest s = Some rest \<and> s = m @ rest"
    by (rule reads_pull_request_scan)
next
  assume "\<exists>rest. pull_request_rest s = Some rest \<and> s = m @ rest"
  then obtain rest where r: "pull_request_rest s = Some rest" "s = m @ rest" by blast
  from scan_reads_pull_request[OF r(1)] obtain m' where "s = m' @ rest" "reads_pull_request s m'"
    by blast
  then show "reads_pull_request s m" using r(2) by simp
qed

lemma pull_request_start:
  assumes "pull_request_rest s = Some rest"
  shows "s \<noteq> [] \<and> canonicalize (hd s) = 80"
proof -
  from assms have "ci_prefix ''pull request'' s"
    by (auto simp: pull_request_rest_def split: if_splits)
  then show ?thesis
    by (cases s) (auto simp: ci_prefix_def ci_eq_def canonicalize_def)
qed

lemma pull_request_inside:
  assumes "reads_pull_request s m"
  shows "m \<noteq> [] \<and> (\<forall>c \<in> set (tl m). canonicalize c \<noteq> 80)"
proof -
  from assms obtain w p ws h ds rest where
    m: "m = w @ p @ ws @ h @ ds" and w: "ci_eq w ''pull request''"
    and p: "p = [] \<or> ci_eq p ''s''" and ws: "list_all is_space ws" and h: "h = [] \<or> h = ''#''"
    and ds: "list_all is_digit ds"
    unfolding reads_pull_request_def by blast
  from w obtain x w' where w': "w = x # w'" "map canonicalize w' = map canonicalize ''ull request''"
    by (cases w) (auto simp: ci_eq_def)
  have "canonicalize c \<noteq> 80" if "c \<in> set w'" for c
  proof -
    from that have "canonicalize c \<in> set (map canonicalize w')" by simp
    then show ?thesis unfolding w'(2) by (auto simp: canonicalize_def)
  qed
  moreover have "canonicalize c \<noteq> 80" if "c \<in> set p" for c
    using p that by (auto simp: ci_eq_single canon_literals)
  moreover have "canonicalize c \<noteq> 80" if "c \<in> set ws" for c
    using ws that canon_space[of c] by (auto simp: list_all_iff)
  moreover have "canonicalize c \<noteq> 80" if "c \<in> set h" for c
    using h that by (auto simp: canon_literals)
  moreover have "canonicalize c \<noteq> 80" if "c \<in> set ds" for c
    using ds that canon_digit[of c] by (auto simp: list_all_iff)
  ultimately show ?thesis unfolding m w'(1) by auto
qed

lemma no_mention_inside:
  assumes "pull_request_rest (x # xs) = Some rest" and "j < length xs - length rest"
  shows "pull_request_rest (drop j xs) = None"
proof -
  from scan_reads_pull_request[OF assms(1)] obtain m where
    m: "x # xs = m @ rest" "reads_pull_request (x # xs) m" by blast
  from pull_request_inside[OF m(2)] obtain m' where m': "m = x # m'" "\<forall>c \<in> set m'. canonicalize c \<noteq> 80"
    using m(1) by (cases m) auto
  have xs: "xs = m' @ rest" using m(1) m'(1) by simp
  have j: "j < length m'" using assms(2) xs by simp
  then have "drop j xs = (m' ! j) # drop (Suc j) m' @ rest"
    unfolding xs by (simp add: Cons_nth_drop_Suc)
  moreover have "canonicalize (m' ! j) \<noteq> 80" using m'(2) j by simp
  ultimately have "\<not> (drop j xs \<noteq> [] \<and> canonicalize (hd (drop j xs)) = 80)" by simp
  then show ?thesis using pull_request_start[of "drop j xs"] by (cases "pull_request_rest (drop j xs)") auto
qed

lemma all_mentions_skip:
  "(\<And>j. j < k \<Longrightarrow> pull_request_rest (drop j xs) = None) \<Longrightarrow> all_mentions (drop k xs) = all_mentions xs"
proof (induction k)
  case 0
  then show ?case by simp
next
  case (Suc k)
  have ih: "all_mentions (drop k xs) = all_mentions xs" using Suc by simp
  show ?case
  proof (cases "k < length xs")
    case False
    then show ?thesis using ih by simp
  next
    case True
    then have "drop k xs = (xs ! k) # drop (Suc k) xs" by (simp add: Cons_nth_drop_Suc)
    moreover have "pull_request_rest (drop k xs) = None" using Suc.prems by simp
    ultimately have "all_mentions (drop k xs) = all_mentions (drop (Suc k) xs)"
      by (metis all_mentions.simps(2) option.simps(4))
    then show ?thesis using ih by simp
  qed
qed

lemma match_all_pull_request: "match_all pullRequestRegex t = all_mentions t"
proof (induction "length t" arbitrary: t rule: less_induct)
  case less
  show ?case
  proof (cases t)
    case Nil
    then show ?thesis
      by (simp add: match_here_pull_request pull_request_rest_def ci_prefix_def)
  next
    case (Cons x xs)
    show ?thesis
    proof (cases "pull_request_rest (x # xs)")
      case None
      then have "match_all pullRequestRegex (x # xs) = match_all pullRequestRegex xs"
        by (simp add: match_here_pull_request)
      then show ?thesis using less[of xs] Cons None by simp
    next
      case (Some rest)
      from scan_reads_pull_request[OF Some] obtain m where m: "x # xs = m @ rest" by blast
      let ?n = "length (x # xs) - length rest"
      have n: "?n - 1 = length xs - length rest" by simp
      have "match_all pullRequestRegex (x # xs) =
              take ?n (x # xs) # match_all pullRequestRegex (drop (?n - 1) xs)"
        using Some by (simp add: match_here_pull_request)
      also have "match_all pullRequestRegex (drop (?n - 1) xs) = all_mentions (drop (?n - 1) xs)"
        using less[of "drop (?n - 1) xs"] Cons by simp
      also have "all_mentions (drop (?n - 1) xs) = all_mentions xs"
        unfolding n by (rule all_mentions_skip) (rule no_mention_inside[OF Some])
      finally show ?thesis using Cons Some by simp
    qed
  qed
qed


lemma reads_pull_request_unique:
  "reads_pull_request s m \<Longrightarrow> reads_pull_request s m' \<Longrightarrow> m = m'"
  unfolding reads_pull_request_iff by auto

text \<open>The mentions are the readings at the positions of the text, in order.\<close>

lemma all_mentions_positions:
  "\<exists>is. sorted_wrt (<) is
      \<and> set is = {i. i < length t \<and> (\<exists>m. reads_pull_request (drop i t) m)}
      \<and> list_all2 (\<lambda>i m. reads_pull_request (drop i t) m) is (all_mentions t)"
proof (induction t)
  case Nil
  show ?case by (rule exI[of _ "[]"]) simp
next
  case (Cons x xs)
  then obtain js where js: "sorted_wrt (<) js"
    "set js = {i. i < length xs \<and> (\<exists>m. reads_pull_request (drop i xs) m)}"
    "list_all2 (\<lambda>i m. reads_pull_request (drop i xs) m) js (all_mentions xs)"
    by blast
  let ?P = "\<lambda>i. \<exists>m. reads_pull_request (drop i (x # xs)) m"
  have shift: "sorted_wrt (<) (map Suc js)"
    using js(1) by (simp add: sorted_wrt_map)
  have set_shift: "set (map Suc js) = {i. 0 < i \<and> i < length (x # xs) \<and> ?P i}"
  proof (rule set_eqI)
    fix i
    show "i \<in> set (map Suc js) \<longleftrightarrow> i \<in> {i. 0 < i \<and> i < length (x # xs) \<and> ?P i}"
    proof (cases i)
      case 0
      then show ?thesis by auto
    next
      case (Suc k)
      then show ?thesis using js(2) by auto
    qed
  qed
  have rel_shift: "list_all2 (\<lambda>i m. reads_pull_request (drop i (x # xs)) m) (map Suc js) (all_mentions xs)"
    using js(3) by (simp add: list_all2_map1)
  show ?case
  proof (cases "pull_request_rest (x # xs)")
    case None
    then have no: "\<not> ?P 0" by (simp add: reads_pull_request_iff)
    have "set (map Suc js) = {i. i < length (x # xs) \<and> ?P i}"
      unfolding set_shift using no by (auto simp: neq0_conv intro: ccontr)
    moreover have "all_mentions (x # xs) = all_mentions xs" using None by simp
    ultimately show ?thesis using shift rel_shift by (intro exI[of _ "map Suc js"]) simp
  next
    case (Some rest)
    let ?m = "take (length (x # xs) - length rest) (x # xs)"
    from scan_reads_pull_request[OF Some] obtain m where m: "x # xs = m @ rest" "reads_pull_request (x # xs) m"
      by blast
    then have "?m = m" by simp
    then have r0: "reads_pull_request (drop 0 (x # xs)) ?m" using m(2) by simp
    have "set (0 # map Suc js) = {i. i < length (x # xs) \<and> ?P i}"
    proof (rule set_eqI)
      fix i
      show "i \<in> set (0 # map Suc js) \<longleftrightarrow> i \<in> {i. i < length (x # xs) \<and> ?P i}"
      proof (cases "i = 0")
        case True
        then show ?thesis using r0 by auto
      next
        case False
        then show ?thesis using set_shift by auto
      qed
    qed
    moreover have "sorted_wrt (<) (0 # map Suc js)" using shift by auto
    moreover have "all_mentions (x # xs) = ?m # all_mentions xs" using Some by simp
    moreover have "list_all2 (\<lambda>i m. reads_pull_request (drop i (x # xs)) m) (0 # map Suc js) (?m # all_mentions xs)"
      using r0 rel_shift by simp
    ultimately show ?thesis by (intro exI[of _ "0 # map Suc js"]) simp
  qed
qed


subsection \<open>A task count, scanned\<close>

text \<open>A capture group around a run of digits, before a rest that cannot start with a digit.\<close>

lemma bt_digits_first:
  assumes "\<And>x xs cs'. is_digit x \<Longrightarrow> k (x # xs) cs' = None"
  shows "bt (Group (Plus Digit)) s cs k =
     (if s \<noteq> [] \<and> is_digit (hd s) then k (dropWhile is_digit s) (cs @ [takeWhile is_digit s]) else None)"
proof (cases s)
  case Nil
  then show ?thesis by simp
next
  case (Cons d ds)
  show ?thesis
  proof (cases "is_digit d")
    case False
    then show ?thesis using Cons by simp
  next
    case True
    let ?k = "\<lambda>s' cs'. k s' (cs' @ [take (length s - length s') s])"
    have dg: "cls_matches Digit = is_digit" by (rule ext) simp
    have "bt (Star Digit) ds cs ?k = ?k (dropWhile (cls_matches Digit) ds) cs"
      by (rule bt_star_skip) (simp add: assms)
    also have "dropWhile (cls_matches Digit) ds = dropWhile is_digit s"
      using Cons True by (simp add: dg)
    also have "?k (dropWhile is_digit s) cs = k (dropWhile is_digit s) (cs @ [takeWhile is_digit s])"
      by (simp only: take_length_dropWhile)
    finally have "bt (Star Digit) ds cs ?k = k (dropWhile is_digit s) (cs @ [takeWhile is_digit s])" .
    moreover have "bt (Group (Plus Digit)) s cs k = bt (Star Digit) ds cs ?k"
      using Cons True by simp
    ultimately show ?thesis using Cons True by simp
  qed
qed

lemma ci_prefix_head:
  "ci_prefix (c # w) (x # xs) \<Longrightarrow> canonicalize x = canonicalize c"
  by (simp add: ci_prefix_def ci_eq_def)

lemma verb_at_head:
  "verb_at (x # xs) \<Longrightarrow> canonicalize x = 80 \<or> canonicalize x = 67 \<or> canonicalize x = 72"
  unfolding verb_at_def by (auto dest!: ci_prefix_head simp: canon_literals)

lemma verb_at_not_space: "is_space x \<Longrightarrow> \<not> verb_at (x # xs)"
  using canon_space[of x] by (auto dest!: verb_at_head)

lemma verb_at_not_s: "cls_matches (Ch CHR ''s'') x \<Longrightarrow> \<not> verb_at (x # xs)"
  by (auto dest!: verb_at_head simp: canon_literals)

lemma match_here_tasks:
  "map_option (\<lambda>(n, cs). cs ! 0) (match_here tasksProcessedRegex s) = task_count_at s"
proof -
  define k0 where "k0 = (\<lambda>(s' :: string) (cs :: string list). Some (length s - length s', cs))"
  define kV where "kV = (\<lambda>s5 cs5. bt (Group (Alt (lit ''processed'') (Alt (lit ''completed'') (lit ''handled'')))) s5 cs5 k0)"
  define kW2 where "kW2 = (\<lambda>s4 cs4. bt (Star Space) s4 cs4 kV)"
  define kS where "kS = (\<lambda>s3 cs3. bt (Opt (Ch CHR ''s'')) s3 cs3 kW2)"
  define kT where "kT = (\<lambda>s2 cs2. bt (lit ''task'') s2 cs2 kS)"
  define kW1 where "kW1 = (\<lambda>s1 cs1. bt (Star Space) s1 cs1 kT)"
  have sp: "cls_matches Space = is_space" by (rule ext) simp
  have lens: "length ''processed'' = 9" "length ''completed'' = 9" "length ''handled'' = 7"
    "length ''task'' = 4"
    by simp_all
  have kV_none: "kV s5 cs5 = None" if "\<not> verb_at s5" for s5 cs5
    using that unfolding kV_def k0_def by (simp only: bt.simps bt_lit lens) (simp add: verb_at_def)
  have kV_some: "\<exists>n v. kV s5 cs5 = Some (n, cs5 @ [v])" if "verb_at s5" for s5 cs5
    using that unfolding kV_def k0_def by (simp only: bt.simps bt_lit lens) (auto simp: verb_at_def)
  have kV_first: "map_option (\<lambda>(n, cs). cs ! 0) (kV s5 [ds]) = (if verb_at s5 then Some ds else None)" for s5 ds
  proof (cases "verb_at s5")
    case True
    from kV_some[OF True, of "[ds]"] obtain n v where "kV s5 [ds] = Some (n, [ds] @ [v])" by blast
    then show ?thesis using True by simp
  next
    case False
    then show ?thesis using kV_none[OF False] by simp
  qed
  have kW2: "kW2 s4 cs4 = kV (dropWhile is_space s4) cs4" for s4 cs4
  proof -
    have "bt (Star Space) s4 cs4 kV = kV (dropWhile (cls_matches Space) s4) cs4"
    proof (rule bt_star_skip)
      fix x xs assume "cls_matches Space x"
      then have "\<not> verb_at (x # xs)" by (simp add: verb_at_not_space)
      then show "kV (x # xs) cs4 = None" by (rule kV_none)
    qed
    then show ?thesis by (simp add: sp kW2_def)
  qed
  have kS: "kS s3 cs3 = kW2 (skip_opt (Ch CHR ''s'') s3) cs3" for s3 cs3
    unfolding kS_def
  proof (rule bt_opt_skip)
    fix x xs assume x: "cls_matches (Ch CHR ''s'') x"
    then have "\<not> is_space x" using canon_space[of x] by (auto simp: canon_literals)
    then have "kW2 (x # xs) cs3 = kV (x # xs) cs3" unfolding kW2 by simp
    then show "kW2 (x # xs) cs3 = None" using kV_none[OF verb_at_not_s[OF x]] by simp
  qed
  have kT: "kT s2 cs2 = (if ci_prefix ''task'' s2 then kS (drop 4 s2) cs2 else None)" for s2 cs2
    unfolding kT_def by (simp only: bt_lit lens)
  have kT_none: "kT (x # xs) cs = None" if "canonicalize x \<noteq> 84" for x xs cs
    using that unfolding kT by (auto dest!: ci_prefix_head simp: canon_literals)
  have kW1: "kW1 s1 cs1 = kT (dropWhile is_space s1) cs1" for s1 cs1
  proof -
    have "bt (Star Space) s1 cs1 kT = kT (dropWhile (cls_matches Space) s1) cs1"
    proof (rule bt_star_skip)
      fix x xs assume "cls_matches Space x"
      then have "canonicalize x \<noteq> 84" using canon_space[of x] by auto
      then show "kT (x # xs) cs1 = None" by (rule kT_none)
    qed
    then show ?thesis by (simp add: sp kW1_def)
  qed
  have kW1_none: "kW1 (x # xs) cs = None" if "is_digit x" for x xs cs
  proof -
    have "\<not> is_space x" using that by (auto simp: is_digit_def is_space_def Let_def)
    then have "kW1 (x # xs) cs = kT (x # xs) cs" unfolding kW1 by simp
    moreover have "canonicalize x \<noteq> 84" using canon_digit[OF that] by simp
    ultimately show ?thesis using kT_none by simp
  qed
  have "match_here tasksProcessedRegex s = bt (Group (Plus Digit)) s [] kW1"
    by (simp add: match_here_def tasksProcessedRegex_def kW1_def kT_def kS_def kW2_def kV_def k0_def)
  also have "\<dots> = (if s \<noteq> [] \<and> is_digit (hd s) then kW1 (dropWhile is_digit s) ([] @ [takeWhile is_digit s]) else None)"
    by (rule bt_digits_first) (rule kW1_none)
  finally have "match_here tasksProcessedRegex s =
      (if s \<noteq> [] \<and> is_digit (hd s)
       then (if ci_prefix ''task'' (dropWhile is_space (dropWhile is_digit s))
             then kV (dropWhile is_space (skip_opt (Ch CHR ''s'') (drop 4 (dropWhile is_space (dropWhile is_digit s)))))
                    [takeWhile is_digit s]
             else None)
       else None)"
    by (simp add: kW1 kT kS kW2)
  then show ?thesis
    by (simp add: task_count_at_def kV_first kV_none)
qed

lemma exec_tasks:
  "map_option (\<lambda>(m, groups). groups ! 0) (exec tasksProcessedRegex t) = first_task_count t"
proof (induction t)
  case Nil
  have "task_count_at [] = None" by (simp add: task_count_at_def)
  then have "match_here tasksProcessedRegex [] = None"
    using match_here_tasks[of "[]"] by simp
  then show ?case by simp
next
  case (Cons x xs)
  show ?case
  proof (cases "match_here tasksProcessedRegex (x # xs)")
    case None
    then have "task_count_at (x # xs) = None" using match_here_tasks[of "x # xs"] by simp
    then show ?thesis using None Cons by simp
  next
    case (Some a)
    obtain n cs where a: "a = (n, cs)" by (cases a)
    then have "task_count_at (x # xs) = Some (cs ! 0)" using match_here_tasks[of "x # xs"] Some by simp
    then show ?thesis using Some a by simp
  qed
qed

lemma first_task_count_none:
  "(\<And>i. task_count_at (drop i t) = None) \<Longrightarrow> first_task_count t = None"
proof (induction t)
  case Nil
  then show ?case by simp
next
  case (Cons x xs)
  have "task_count_at (x # xs) = None" using Cons.prems[of 0] by simp
  moreover have "first_task_count xs = None"
  proof (rule Cons.IH)
    fix i show "task_count_at (drop i xs) = None" using Cons.prems[of "Suc i"] by simp
  qed
  ultimately show ?case by simp
qed

lemma first_task_count_found:
  "task_count_at (drop i t) = Some ds \<Longrightarrow> (\<And>j. j < i \<Longrightarrow> task_count_at (drop j t) = None)
     \<Longrightarrow> first_task_count t = Some ds"
proof (induction t arbitrary: i)
  case Nil
  then show ?case by (simp add: task_count_at_def)
next
  case (Cons x xs)
  show ?case
  proof (cases i)
    case 0
    then show ?thesis using Cons.prems(1) by simp
  next
    case (Suc k)
    have "task_count_at (x # xs) = None" using Cons.prems(2)[of 0] Suc by simp
    moreover have "first_task_count xs = Some ds"
    proof (rule Cons.IH[of k])
      show "task_count_at (drop k xs) = Some ds" using Cons.prems(1) Suc by simp
      fix j assume "j < k"
      then show "task_count_at (drop j xs) = None" using Cons.prems(2)[of "Suc j"] Suc by simp
    qed
    ultimately show ?thesis by simp
  qed
qed


subsection \<open>A task count, read and scanned\<close>

lemma ci_eq_head: "ci_eq v (c # w) \<Longrightarrow> v \<noteq> [] \<and> canonicalize (hd v) = canonicalize c"
  by (cases v) (auto simp: ci_eq_def)

lemma verb_ci_eq:
  assumes "ci_eq v ''processed'' \<or> ci_eq v ''completed'' \<or> ci_eq v ''handled''"
  shows "v \<noteq> [] \<and> \<not> is_space (hd v) \<and> \<not> cls_matches (Ch CHR ''s'') (hd v) \<and> verb_at (v @ rest)"
proof -
  from assms have "v \<noteq> [] \<and> (canonicalize (hd v) = 80 \<or> canonicalize (hd v) = 67 \<or> canonicalize (hd v) = 72)"
    by (auto dest!: ci_eq_head simp: canon_literals)
  moreover have "verb_at (v @ rest)"
    using assms unfolding verb_at_def by (auto intro: ci_prefix_append)
  ultimately show ?thesis
    using canon_space[of "hd v"] by (auto simp: canon_literals)
qed

lemma reads_task_count_scan:
  assumes "reads_task_count s ds"
  shows "task_count_at s = Some ds"
proof -
  from assms obtain ws1 w p ws2 v rest where
    s: "s = ds @ ws1 @ w @ p @ ws2 @ v @ rest"
    and ds: "ds \<noteq> []" "list_all is_digit ds" and ws1: "list_all is_space ws1"
    and w: "ci_eq w ''task''" and p: "p = [] \<or> ci_eq p ''s''" and ws2: "list_all is_space ws2"
    and v: "ci_eq v ''processed'' \<or> ci_eq v ''completed'' \<or> ci_eq v ''handled''"
    unfolding reads_task_count_def by blast
  let ?r4 = "v @ rest"
  let ?r3 = "ws2 @ ?r4"
  let ?r2 = "p @ ?r3"
  let ?r1 = "w @ ?r2"
  let ?r0 = "ws1 @ ?r1"
  note vv = verb_ci_eq[OF v, of rest]
  have lw: "length w = 4" using ci_eq_length[OF w] by simp
  have hw: "w \<noteq> [] \<and> canonicalize (hd w) = 84"
    using w by (cases w) (auto simp: ci_eq_def canonicalize_def)
  have hw': "?r1 \<noteq> [] \<and> \<not> is_digit (hd ?r1) \<and> \<not> is_space (hd ?r1)"
    using hw canon_digit[of "hd w"] canon_space[of "hd w"] by auto
  have h0: "?r0 \<noteq> [] \<and> \<not> is_digit (hd ?r0)"
  proof (cases ws1)
    case Nil
    then show ?thesis using hw' by simp
  next
    case (Cons y ys)
    then have "is_space y" using ws1 by simp
    then show ?thesis using Cons digit_not_space[of y] by auto
  qed
  have hd_s: "s \<noteq> [] \<and> is_digit (hd s)" unfolding s using ds by (cases ds) auto
  have a: "dropWhile is_digit s = ?r0"
    unfolding s using ds(2) h0 by (simp add: dropWhile_all dropWhile_keep)
  have t: "takeWhile is_digit s = ds"
    unfolding s using ds(2) h0 by (simp add: takeWhile_all)
  have b: "dropWhile is_space ?r0 = ?r1"
    using ws1 hw' by (simp add: dropWhile_all dropWhile_keep)
  have c: "ci_prefix ''task'' ?r1" using ci_prefix_append[OF w] by simp
  have d: "drop 4 ?r1 = ?r2" using lw by simp
  have h3: "\<not> cls_matches (Ch CHR ''s'') (hd ?r3) \<and> ?r3 \<noteq> []"
  proof (cases ws2)
    case Nil
    then show ?thesis using vv by simp
  next
    case (Cons y ys)
    then have "is_space y" using ws2 by simp
    then show ?thesis using Cons canon_space[of y] by (auto simp: canon_literals)
  qed
  have e: "skip_opt (Ch CHR ''s'') ?r2 = ?r3"
  proof (cases "p = []")
    case True
    then show ?thesis using h3 by (simp add: skip_opt_keep)
  next
    case False
    then obtain x where "p = [x]" "canonicalize x = canonicalize CHR ''s''"
      using p by (auto simp: ci_eq_single)
    then show ?thesis by (simp add: skip_opt_take)
  qed
  have f: "dropWhile is_space ?r3 = ?r4"
    using ws2 vv by (simp add: dropWhile_all dropWhile_keep)
  show ?thesis
    unfolding task_count_at_def a b d e f t using hd_s c vv by simp
qed

lemma scan_reads_task_count:
  assumes "task_count_at s = Some ds"
  shows "reads_task_count s ds"
proof -
  let ?a = "dropWhile is_digit s"
  let ?r1 = "dropWhile is_space ?a"
  let ?r2 = "drop 4 ?r1"
  let ?r3 = "skip_opt (Ch CHR ''s'') ?r2"
  let ?r4 = "dropWhile is_space ?r3"
  from assms have hd_s: "s \<noteq> []" "is_digit (hd s)" and c: "ci_prefix ''task'' ?r1"
    and v: "verb_at ?r4" and ds: "ds = takeWhile is_digit s"
    by (auto simp: task_count_at_def split: if_splits)
  have len4: "length ''task'' = 4" by simp
  from ci_prefix_split[OF c] obtain w where w: "?r1 = w @ ?r2" "ci_eq w ''task''"
    unfolding len4 by blast
  from skip_opt_split[of ?r2 "Ch CHR ''s''"] obtain p where
    p: "?r2 = p @ ?r3" "p = [] \<or> (\<exists>x. p = [x] \<and> cls_matches (Ch CHR ''s'') x)" by blast
  from v obtain vb rest where vb: "?r4 = vb @ rest"
    "ci_eq vb ''processed'' \<or> ci_eq vb ''completed'' \<or> ci_eq vb ''handled''"
    unfolding verb_at_def by (auto dest!: ci_prefix_split)
  have s0: "s = ds @ ?a" unfolding ds by simp
  have s1: "?a = takeWhile is_space ?a @ ?r1" by simp
  have s3: "?r3 = takeWhile is_space ?r3 @ ?r4" by simp
  have whole: "s = ds @ takeWhile is_space ?a @ w @ p @ takeWhile is_space ?r3 @ vb @ rest"
    using s0 s1 w(1) p(1) s3 vb(1) by (metis append.assoc)
  show ?thesis
    unfolding reads_task_count_def
  proof (intro exI conjI)
    show "s = ds @ takeWhile is_space ?a @ w @ p @ takeWhile is_space ?r3 @ vb @ rest" by (rule whole)
    show "ds \<noteq> []" unfolding ds using hd_s by (cases s) auto
    show "list_all is_digit ds" unfolding ds by (simp add: list_all_iff) (meson set_takeWhileD)
    show "list_all is_space (takeWhile is_space ?a)" by (simp add: list_all_iff) (meson set_takeWhileD)
    show "ci_eq w ''task''" by (rule w(2))
    show "p = [] \<or> ci_eq p ''s''" using p(2) by (auto simp: ci_eq_single)
    show "list_all is_space (takeWhile is_space ?r3)" by (simp add: list_all_iff) (meson set_takeWhileD)
    show "ci_eq vb ''processed'' \<or> ci_eq vb ''completed'' \<or> ci_eq vb ''handled''" by (rule vb(2))
  qed
qed

lemma reads_task_count_iff: "reads_task_count s ds \<longleftrightarrow> task_count_at s = Some ds"
  using reads_task_count_scan scan_reads_task_count by blast

lemma parseInt_digits: "ds \<noteq> [] \<Longrightarrow> list_all is_digit ds \<Longrightarrow> parseInt ds = Num (digits_value ds)"
  by (simp add: parseInt_def Let_def takeWhile_eq_all_conv[THEN iffD2] list_all_iff)

lemma str_includes_map:
  "str_includes (map f t) n \<longleftrightarrow> (\<exists>p w q. t = p @ w @ q \<and> map f w = n)"
proof
  assume "str_includes (map f t) n"
  then obtain p' q' where "map f t = p' @ n @ q'" unfolding str_includes_iff by blast
  then obtain p vs where 1: "t = p @ vs" "n @ q' = map f vs"
    unfolding map_eq_append_conv by blast
  from 1(2)[symmetric] obtain w q where 2: "vs = w @ q" "n = map f w"
    unfolding map_eq_append_conv by blast
  from 1(1) 2 show "\<exists>p w q. t = p @ w @ q \<and> map f w = n" by blast
next
  assume "\<exists>p w q. t = p @ w @ q \<and> map f w = n"
  then obtain p w q where "t = p @ w @ q" "map f w = n" by blast
  then have "map f t = map f p @ n @ map f q" by simp
  then show "str_includes (map f t) n" unfolding str_includes_iff by blast
qed

section \<open>The metrics the step reads from the agent's text\<close>

lemma parse_response_tasksProcessed:
  "tasksProcessed (parse_response t) =
     (case first_task_count t of Some ds \<Rightarrow> parseInt ds | None \<Rightarrow> Num 0)"
proof -
  have "tasksProcessed (parse_response t) =
          (case exec tasksProcessedRegex t of Some (m, groups) \<Rightarrow> parseInt (groups ! 0) | None \<Rightarrow> Num 0)"
    by (simp add: parse_response_def Let_def)
  also have "\<dots> = (case map_option (\<lambda>(m, groups). groups ! 0) (exec tasksProcessedRegex t) of
                      Some ds \<Rightarrow> parseInt ds | None \<Rightarrow> Num 0)"
    by (cases "exec tasksProcessedRegex t") auto
  finally show ?thesis by (simp only: exec_tasks)
qed

lemma parse_response_completedTasks:
  "completedTasks (parse_response t) = all_mentions t"
  by (simp add: parse_response_def Let_def match_all_pull_request)

lemma parse_response_errors:
  "errors (parse_response t) \<noteq> [] \<longleftrightarrow>
     (\<exists>p w q. t = p @ w @ q \<and> (toLowerCase w = ''error'' \<or> toLowerCase w = ''failed''))"
proof -
  have "errors (parse_response t) \<noteq> [] \<longleftrightarrow>
          str_includes (map lower_char t) ''error'' \<or> str_includes (map lower_char t) ''failed''"
    by (simp add: parse_response_def Let_def toLowerCase_def)
  also have "\<dots> \<longleftrightarrow> (\<exists>p w q. t = p @ w @ q \<and> map lower_char w = ''error'')
                    \<or> (\<exists>p w q. t = p @ w @ q \<and> map lower_char w = ''failed'')"
    by (simp only: str_includes_map)
  also have "\<dots> \<longleftrightarrow> (\<exists>p w q. t = p @ w @ q \<and> (toLowerCase w = ''error'' \<or> toLowerCase w = ''failed''))"
    unfolding toLowerCase_def by (simp only: ex_disj_distrib conj_disj_distribL)
  finally show ?thesis .
qed




end
